theory Spec2Isabelle
  imports Main
begin

section \<open>JavaScript values and strings\<close>

text \<open>
  A JavaScript string is modelled as a \<^typ>\<open>string\<close>: the list of its code units, here the
  code units below 256. The characters the CSV codec looks at are named once.
\<close>

abbreviation DQUOTE :: char where "DQUOTE \<equiv> CHR 0x22"
abbreviation SQUOTE :: char where "SQUOTE \<equiv> CHR 0x27"
abbreviation COMMA :: char where "COMMA \<equiv> CHR '',''"
abbreviation LF :: char where "LF \<equiv> CHR 0x0A"
abbreviation CR :: char where "CR \<equiv> CHR 0x0D"

text \<open>
  The scalar values a parsed JSON body or a stored property can hold. \<open>JUndefined\<close> is
  what reading an absent property gives. \<open>JNum n\<close> is a number whose value is the integer
  \<open>n\<close>, one that a double holds (durations are minutes, time values are milliseconds),
  and \<open>JInfinity neg\<close> is \<open>Infinity\<close>, or \<open>-Infinity\<close> when \<open>neg\<close> holds; fractions, nested
  arrays and objects are left out.
\<close>

datatype jsval = JUndefined | JNull | JBool bool | JNum int | JInfinity bool | JStr string

text \<open>ToBoolean: what \<open>||\<close>, \<open>&&\<close> and \<open>if\<close> test.\<close>

fun truthy :: "jsval \<Rightarrow> bool" where
  "truthy JUndefined = False"
| "truthy JNull = False"
| "truthy (JBool b) = b"
| "truthy (JNum n) = (n \<noteq> 0)"
| "truthy (JInfinity neg) = True"
| "truthy (JStr s) = (s \<noteq> [])"

text \<open>\<open>a || b\<close> on values.\<close>

definition orElse :: "jsval \<Rightarrow> jsval \<Rightarrow> jsval" where
  "orElse a b = (if truthy a then a else b)"

text \<open>Decimal digits of a natural number, and of an integer that is not negative.\<close>

definition digitChar :: "nat \<Rightarrow> char" where
  "digitChar d = char_of (48 + d)"

fun natDigits :: "nat \<Rightarrow> string" where
  "natDigits n = (if n < 10 then [digitChar n] else natDigits (n div 10) @ [digitChar (n mod 10)])"

declare natDigits.simps [simp del]

function intDigits :: "int \<Rightarrow> string" where
  "intDigits n =
     (if n < 10 then [digitChar (nat n)] else intDigits (n div 10) @ [digitChar (nat (n mod 10))])"
  by pat_completeness auto

termination
  by (relation "measure nat") auto

declare intDigits.simps [simp del]

text \<open>
  Numbers are binary doubles: 53 significant bits, round to nearest, ties to the even
  significand. \<open>bitLength\<close> is the number of binary digits of a positive integer.
\<close>

function bitLength :: "int \<Rightarrow> nat" where
  "bitLength n = (if n \<le> 0 then 0 else Suc (bitLength (n div 2)))"
  by pat_completeness auto

termination
  by (relation "measure nat") auto

declare bitLength.simps [simp del]

text \<open>
  The double nearest to an integer \<open>a\<close> that is not negative. Below \<open>2 ^ 53\<close> it is \<open>a\<close>;
  from there on the bits below the top 53 are rounded away. A result of \<open>2 ^ 1024\<close> or
  more stands for a value beyond the largest double.
\<close>

definition roundToDouble :: "int \<Rightarrow> int" where
  "roundToDouble a =
     (let e = bitLength a - 53;
          q = a div 2 ^ e;
          r = a mod 2 ^ e;
          q' = (if 2 * r > 2 ^ e \<or> (2 * r = 2 ^ e \<and> odd q) then q + 1 else q)
      in q' * 2 ^ e)"

text \<open>The number value of a mathematical integer.\<close>

definition toNumber :: "int \<Rightarrow> jsval" where
  "toNumber n =
     (let v = roundToDouble \<bar>n\<bar>
      in if 2 ^ 1024 \<le> v then JInfinity (n < 0)
         else JNum (if n < 0 then - v else v))"

text \<open>
  \<open>String(n)\<close> for a number that is an integer writes the shortest decimal digits that
  still denote that double, followed by zeros, and switches to exponent notation from
  22 digits on. \<open>roundsTo x v\<close>: the integer \<open>v\<close> lies in the interval of values that round
  to the double \<open>x\<close>, whose ends count when the significand of \<open>x\<close> is even; below a power
  of two the interval is half as wide. Distances are taken four-fold to stay in integers.
\<close>

definition roundsTo :: "int \<Rightarrow> int \<Rightarrow> bool" where
  "roundsTo x v =
     (let e = bitLength x - 53;
          m = x div 2 ^ e;
          up4 = 2 ^ (e + 1);
          low4 = (if m = 2 ^ 52 then 2 ^ e else 2 ^ (e + 1))
      in if v \<le> x then 4 * (x - v) < low4 \<or> (even m \<and> 4 * (x - v) = low4)
         else 4 * (v - x) < up4 \<or> (even m \<and> 4 * (v - x) = up4))"

text \<open>
  The value with the fewest significant digits that rounds to \<open>x\<close>, the nearer one where
  two have as few: multiples of \<open>10 ^ j\<close> are tried from the largest \<open>j\<close> down.
\<close>

fun shortestFrom :: "int \<Rightarrow> nat \<Rightarrow> int" where
  "shortestFrom x 0 = x"
| "shortestFrom x (Suc j) =
     (let u = 10 ^ Suc j;
          lo = (x div u) * u;
          hi = lo + u
      in if roundsTo x lo \<and> roundsTo x hi then
           (if x - lo < hi - x then lo
            else if hi - x < x - lo then hi
            else if even (lo div u) then lo else hi)
         else if roundsTo x lo then lo
         else if roundsTo x hi then hi
         else shortestFrom x j)"

definition shortestDecimal :: "int \<Rightarrow> int" where
  "shortestDecimal x = shortestFrom x (length (intDigits x) - 1)"

definition positiveToString :: "int \<Rightarrow> string" where
  "positiveToString x =
     (let ds = intDigits (shortestDecimal x);
          n = length ds;
          s = rev (dropWhile (\<lambda>c. c = CHR ''0'') (rev ds))
      in if n \<le> 21 then ds
         else take 1 s @ (if length s = 1 then [] else CHR ''.'' # drop 1 s)
              @ ''e+'' @ natDigits (n - 1))"

definition numberToString :: "int \<Rightarrow> string" where
  "numberToString n = (if n < 0 then CHR ''-'' # positiveToString (- n) else positiveToString n)"

text \<open>\<open>String(value)\<close>.\<close>

fun toStringJs :: "jsval \<Rightarrow> string" where
  "toStringJs JUndefined = ''undefined''"
| "toStringJs JNull = ''null''"
| "toStringJs (JBool b) = (if b then ''true'' else ''false'')"
| "toStringJs (JNum n) = numberToString n"
| "toStringJs (JInfinity neg) = (if neg then ''-Infinity'' else ''Infinity'')"
| "toStringJs (JStr s) = s"

text \<open>\<open>str.startsWith(p)\<close>, \<open>str.includes(ch)\<close> for one character, \<open>str.charAt(i)\<close>
  (the empty string out of range) and \<open>str.substring(1)\<close>.\<close>

fun startsWith :: "string \<Rightarrow> string \<Rightarrow> bool" where
  "startsWith s [] = True"
| "startsWith [] (p # ps) = False"
| "startsWith (c # cs) (p # ps) = (c = p \<and> startsWith cs ps)"

definition includesChar :: "string \<Rightarrow> char \<Rightarrow> bool" where
  "includesChar s ch = (ch \<in> set s)"

definition charAt :: "string \<Rightarrow> nat \<Rightarrow> string" where
  "charAt s i = (if i < length s then [s ! i] else [])"

definition substring1 :: "string \<Rightarrow> string" where
  "substring1 s = drop 1 s"

text \<open>
  \<open>String.prototype.trim\<close> removes white space and line terminators from both ends. Among
  the code units below 256 these are TAB, LF, VT, FF, CR, SPACE and NO-BREAK SPACE.
\<close>

definition isJsSpace :: "char \<Rightarrow> bool" where
  "isJsSpace c = (of_char c \<in> {9, 10, 11, 12, 13, 32, 160 :: nat})"

definition trim :: "string \<Rightarrow> string" where
  "trim s = rev (dropWhile isJsSpace (rev (dropWhile isJsSpace s)))"

text \<open>
  \<open>String.prototype.toLowerCase\<close> on the code units below 256: A to Z, and the Latin-1
  capitals U+00C0 to U+00DE except the multiplication sign U+00D7, move up by 32.
\<close>

definition lowerChar :: "char \<Rightarrow> char" where
  "lowerChar c =
     (let n = (of_char c :: nat)
      in if (65 \<le> n \<and> n \<le> 90) \<or> (192 \<le> n \<and> n \<le> 222 \<and> n \<noteq> 215) then char_of (n + 32) else c)"

definition toLowerCase :: "string \<Rightarrow> string" where
  "toLowerCase s = map lowerChar s"

section \<open>The CSV codec of \<open>schedule.js\<close>\<close>

subsection \<open>Field escaping with Excel formula protection\<close>

definition formulaChars :: "char list" where
  "formulaChars = [CHR ''-'', CHR ''+'', CHR ''='', CHR ''@'']"

text \<open>\<open>str.replace(/"/g, '""')\<close>: every double quote is doubled.\<close>

definition doubleQuotes :: "string \<Rightarrow> string" where
  "doubleQuotes s = concat (map (\<lambda>c. if c = DQUOTE then [DQUOTE, DQUOTE] else [c]) s)"

text \<open>\<open>formulaChars.some(ch => str.startsWith(ch))\<close>.\<close>

definition startsWithFormula :: "string \<Rightarrow> bool" where
  "startsWithFormula str = list_ex (\<lambda>ch. startsWith str [ch]) formulaChars"

text \<open>
  \<open>escapeCsvField(value)\<close>: the empty string for \<open>null\<close> and \<open>undefined\<close>; otherwise the
  text of the value, quoted when it starts with a formula character or contains a comma,
  a double quote, a line feed or a carriage return, and prefixed with a single quote
  inside the quotes when it starts with a formula character.
\<close>

definition escapeCsvField :: "jsval \<Rightarrow> string" where
  "escapeCsvField v =
     (if v = JNull \<or> v = JUndefined then []
      else
        let str = toStringJs v in
        if startsWithFormula str \<or> includesChar str COMMA \<or> includesChar str DQUOTE
           \<or> includesChar str LF \<or> includesChar str CR
        then
          let str' = (if startsWithFormula str then SQUOTE # str else str)
          in [DQUOTE] @ doubleQuotes str' @ [DQUOTE]
        else str)"

subsection \<open>Line parsing\<close>

text \<open>
  \<open>stripExcelQuote(value)\<close>: a leading single quote is removed when the character after it
  is a formula character.
\<close>

definition stripExcelQuote :: "string \<Rightarrow> string" where
  "stripExcelQuote v =
     (if v \<noteq> [] \<and> startsWith v [SQUOTE] \<and> list_ex (\<lambda>ch. charAt v 1 = [ch]) formulaChars
      then substring1 v else v)"

text \<open>
  The \<open>while\<close> loop of \<open>parseCsvLine\<close>. The first argument is the rest of the line from
  index \<open>i\<close> on; \<open>fields\<close>, \<open>current\<close> and \<open>inQuotes\<close> are the loop's variables. Inside
  quotes a double quote followed by another one (\<open>i + 1 < line.length\<close>) adds one quote
  and moves on by two.
\<close>

fun parseCsvLine_loop :: "string \<Rightarrow> string list \<Rightarrow> string \<Rightarrow> bool \<Rightarrow> string list" where
  "parseCsvLine_loop [] fields current inQuotes = fields @ [stripExcelQuote current]"
| "parseCsvLine_loop (c # rest) fields current True =
     (if c = DQUOTE then
        (case rest of
           [] \<Rightarrow> parseCsvLine_loop rest fields current False
         | d # rest' \<Rightarrow>
             if d = DQUOTE then parseCsvLine_loop rest' fields (current @ [DQUOTE]) True
             else parseCsvLine_loop rest fields current False)
      else parseCsvLine_loop rest fields (current @ [c]) True)"
| "parseCsvLine_loop (c # rest) fields current False =
     (if c = DQUOTE then parseCsvLine_loop rest fields current True
      else if c = COMMA then parseCsvLine_loop rest (fields @ [stripExcelQuote current]) [] False
      else parseCsvLine_loop rest fields (current @ [c]) False)"

definition parseCsvLine :: "string \<Rightarrow> string list" where
  "parseCsvLine line = parseCsvLine_loop line [] [] False"

text \<open>
  The older import module (\<open>importSchedule\<close>, beside \<open>exportSchedule\<close>) has its own
  \<open>parseCsvLine\<close>, which pushes each field as it stands, with no \<open>stripExcelQuote\<close>.
\<close>

fun parseCsvLine_v1_loop :: "string \<Rightarrow> string list \<Rightarrow> string \<Rightarrow> bool \<Rightarrow> string list" where
  "parseCsvLine_v1_loop [] fields current inQuotes = fields @ [current]"
| "parseCsvLine_v1_loop (c # rest) fields current True =
     (if c = DQUOTE then
        (case rest of
           [] \<Rightarrow> parseCsvLine_v1_loop rest fields current False
         | d # rest' \<Rightarrow>
             if d = DQUOTE then parseCsvLine_v1_loop rest' fields (current @ [DQUOTE]) True
             else parseCsvLine_v1_loop rest fields current False)
      else parseCsvLine_v1_loop rest fields (current @ [c]) True)"
| "parseCsvLine_v1_loop (c # rest) fields current False =
     (if c = DQUOTE then parseCsvLine_v1_loop rest fields current True
      else if c = COMMA then parseCsvLine_v1_loop rest (fields @ [current]) [] False
      else parseCsvLine_v1_loop rest fields (current @ [c]) False)"

definition parseCsvLine_v1 :: "string \<Rightarrow> string list" where
  "parseCsvLine_v1 line = parseCsvLine_v1_loop line [] [] False"

subsection \<open>Record splitting\<close>

text \<open>\<open>if (currentRow.trim()) rows.push(currentRow)\<close>.\<close>

definition pushRow :: "string list \<Rightarrow> string \<Rightarrow> string list" where
  "pushRow rows currentRow = (if trim currentRow \<noteq> [] then rows @ [currentRow] else rows)"

text \<open>
  The \<open>for\<close> loop of \<open>parseCsv\<close> over the rest of the content from index \<open>i\<close> on. A
  carriage return directly before a line feed ends the record together with it
  (\<open>content[i + 1] === '\n'\<close>, then \<open>i++\<close>); a carriage return alone ends it too.
\<close>

fun parseCsv_loop :: "string \<Rightarrow> string list \<Rightarrow> string \<Rightarrow> bool \<Rightarrow> string list" where
  "parseCsv_loop [] rows currentRow inQuotes = pushRow rows currentRow"
| "parseCsv_loop (c # rest) rows currentRow inQuotes =
     (if c = DQUOTE then parseCsv_loop rest rows (currentRow @ [c]) (\<not> inQuotes)
      else if (c = LF \<or> (c = CR \<and> startsWith rest [LF])) \<and> \<not> inQuotes then
        (if c = CR then parseCsv_loop (drop 1 rest) (pushRow rows currentRow) [] inQuotes
         else parseCsv_loop rest (pushRow rows currentRow) [] inQuotes)
      else if c = CR \<and> \<not> inQuotes then parseCsv_loop rest (pushRow rows currentRow) [] inQuotes
      else parseCsv_loop rest rows (currentRow @ [c]) inQuotes)"

definition parseCsv :: "string \<Rightarrow> string list" where
  "parseCsv content = parseCsv_loop content [] [] False"

section \<open>Dates\<close>

text \<open>
  The handlers call \<open>new Date(v)\<close>, \<open>isNaN(d.getTime())\<close> and
  \<open>d.toISOString().split('T')[0]\<close> of the JavaScript runtime. A date is its time value, the
  milliseconds since 1970-01-01T00:00:00Z; \<open>None\<close> is the invalid date. UTC days and
  calendar dates are converted in the proleptic Gregorian calendar.
\<close>

definition msPerDay :: int where
  "msPerDay = 86400000"

definition isLeapYear :: "int \<Rightarrow> bool" where
  "isLeapYear y = (y mod 4 = 0 \<and> (y mod 100 \<noteq> 0 \<or> y mod 400 = 0))"

definition daysInMonth :: "int \<Rightarrow> int \<Rightarrow> int" where
  "daysInMonth y m =
     (if m = 2 then (if isLeapYear y then 29 else 28)
      else if m = 4 \<or> m = 6 \<or> m = 9 \<or> m = 11 then 30 else 31)"

text \<open>The day number (days since 1970-01-01) of a calendar date, the year counted from
  March so that the leap day comes last.\<close>

definition daysFromCivil :: "int \<Rightarrow> int \<Rightarrow> int \<Rightarrow> int" where
  "daysFromCivil y m d =
     (let y' = (if m \<le> 2 then y - 1 else y);
          era = y' div 400;
          yoe = y' - era * 400;
          mp = (if m > 2 then m - 3 else m + 9);
          doy = (153 * mp + 2) div 5 + d - 1;
          doe = yoe * 365 + yoe div 4 - yoe div 100 + doy
      in era * 146097 + doe - 719468)"

text \<open>
  The calendar date (year, month, day) of a day number. The day within its 400 years is
  split into centuries of 36524 days (the last one day longer), the day of the century
  into four-year spans of 1461 days (the last one day shorter unless the century is the
  fourth) and the day of the span into years of 365 days (the last one day longer).
\<close>

definition civilFromDays :: "int \<Rightarrow> int \<times> int \<times> int" where
  "civilFromDays z =
     (let z' = z + 719468;
          era = z' div 146097;
          doe = z' - era * 146097;
          cent = min 3 (doe div 36524);
          doc = doe - cent * 36524;
          quad = min 24 (doc div 1461);
          doq = doc - quad * 1461;
          yoq = min 3 (doq div 365);
          doy = doq - yoq * 365;
          yoe = cent * 100 + quad * 4 + yoq;
          mp = (5 * doy + 2) div 153;
          d = doy - (153 * mp + 2) div 5 + 1;
          m = (if mp < 10 then mp + 3 else mp - 9);
          y = yoe + era * 400
      in (if m \<le> 2 then y + 1 else y, m, d))"

definition isDigit :: "char \<Rightarrow> bool" where
  "isDigit c = (48 \<le> (of_char c :: nat) \<and> (of_char c :: nat) \<le> 57)"

definition digitVal :: "char \<Rightarrow> int" where
  "digitVal c = int (of_char c) - 48"

text \<open>The number written by a string of exactly \<open>n\<close> decimal digits.\<close>

definition digitsN :: "nat \<Rightarrow> string \<Rightarrow> int option" where
  "digitsN n s =
     (if length s = n \<and> list_all isDigit s then Some (foldl (\<lambda>a c. a * 10 + digitVal c) 0 s)
      else None)"

text \<open>
  \<open>YYYY-MM-DD\<close> with a month from 1 to 12 and a day from 1 to 31. The Node.js runtime
  accepts a day the month does not have and counts it on into the next month, which
  \<open>daysFromCivil\<close> does as well: \<open>2026-02-30\<close> is 2 March.
\<close>

definition parseIsoDate :: "string \<Rightarrow> (int \<times> int \<times> int) option" where
  "parseIsoDate s =
     (case (digitsN 4 (take 4 s), digitsN 2 (take 2 (drop 5 s)), digitsN 2 (take 2 (drop 8 s))) of
        (Some y, Some m, Some d) \<Rightarrow>
          if length s = 10 \<and> s ! 4 = CHR ''-'' \<and> s ! 7 = CHR ''-''
             \<and> 1 \<le> m \<and> m \<le> 12 \<and> 1 \<le> d \<and> d \<le> 31
          then Some (y, m, d) else None
      | _ \<Rightarrow> None)"

text \<open>The UTC offset in minutes: \<open>Z\<close>, or a sign with \<open>HH:mm\<close>.\<close>

definition parseIsoZone :: "string \<Rightarrow> int option" where
  "parseIsoZone s =
     (if s = ''Z'' then Some 0
      else case (digitsN 2 (take 2 (drop 1 s)), digitsN 2 (take 2 (drop 4 s))) of
        (Some h, Some m) \<Rightarrow>
          if length s = 6 \<and> (s ! 0 = CHR ''+'' \<or> s ! 0 = CHR ''-'') \<and> s ! 3 = CHR '':''
             \<and> h \<le> 23 \<and> m \<le> 59
          then Some ((if s ! 0 = CHR ''-'' then - 1 else 1) * (h * 60 + m)) else None
      | _ \<Rightarrow> None)"

text \<open>
  The time of day in milliseconds and the offset in minutes of \<open>HH:mm\<close>, optional \<open>:ss\<close>,
  optional \<open>.sss\<close>, and the zone. The hour runs from 00 to 24, and 24 only as \<open>24:00\<close>,
  \<open>24:00:00\<close> or \<open>24:00:00.000\<close>, the end of the day.
\<close>

definition parseIsoTime :: "string \<Rightarrow> (int \<times> int) option" where
  "parseIsoTime s =
     (case (digitsN 2 (take 2 s), digitsN 2 (take 2 (drop 3 s))) of
        (Some h, Some mi) \<Rightarrow>
          if 5 \<le> length s \<and> s ! 2 = CHR '':'' \<and> h \<le> 24 \<and> mi \<le> 59 then
            (let r1 = drop 5 s;
                 hasSec = startsWith r1 '':'';
                 sec = (if hasSec then digitsN 2 (take 2 (drop 1 r1)) else Some 0);
                 r2 = (if hasSec then drop 3 r1 else r1);
                 hasMs = (hasSec \<and> startsWith r2 ''.'');
                 ms = (if hasMs then digitsN 3 (take 3 (drop 1 r2)) else Some 0);
                 r3 = (if hasMs then drop 4 r2 else r2)
             in case (sec, ms, parseIsoZone r3) of
                  (Some se, Some ml, Some off) \<Rightarrow>
                    if se \<le> 59 \<and> (h \<le> 23 \<or> (mi = 0 \<and> se = 0 \<and> ml = 0))
                    then Some (((h * 60 + mi) * 60 + se) * 1000 + ml, off) else None
                | _ \<Rightarrow> None)
          else None
      | _ \<Rightarrow> None)"

text \<open>
  The strings of the date-time format whose time value does not depend on the time zone
  of the host: a date alone (midnight UTC), or a date, \<open>T\<close>, a time and an explicit zone.
\<close>

definition parseIsoDateTime :: "string \<Rightarrow> int option" where
  "parseIsoDateTime s =
     (case parseIsoDate (take 10 s) of
        None \<Rightarrow> None
      | Some (y, m, d) \<Rightarrow>
          if length s = 10 then Some (daysFromCivil y m d * msPerDay)
          else if s ! 10 = CHR ''T'' then
            (case parseIsoTime (drop 11 s) of
               None \<Rightarrow> None
             | Some (tod, off) \<Rightarrow> Some (daysFromCivil y m d * msPerDay + tod - off * 60000))
          else None)"

text \<open>
  \<open>Date.parse\<close>. Every other string (local times, other layouts, text that is no date) is
  read by the host; \<open>hostParse\<close> is what the host makes of it.
\<close>

definition Date_parse :: "(string \<Rightarrow> int option) \<Rightarrow> string \<Rightarrow> int option" where
  "Date_parse hostParse s =
     (case parseIsoDateTime s of Some t \<Rightarrow> Some t | None \<Rightarrow> hostParse s)"

text \<open>\<open>new Date(v)\<close> for one argument: a string is parsed, any other value is converted to
  a number and clipped to the range of time values.\<close>

definition timeClip :: "int \<Rightarrow> int option" where
  "timeClip n = (if \<bar>n\<bar> \<le> 8640000000000000 then Some n else None)"

fun newDate :: "(string \<Rightarrow> int option) \<Rightarrow> jsval \<Rightarrow> int option" where
  "newDate hostParse JUndefined = None"
| "newDate hostParse JNull = Some 0"
| "newDate hostParse (JBool b) = Some (if b then 1 else 0)"
| "newDate hostParse (JNum n) = timeClip n"
| "newDate hostParse (JInfinity neg) = None"
| "newDate hostParse (JStr s) = Date_parse hostParse s"

text \<open>\<open>String(n).padStart(w, '0')\<close> for a natural number.\<close>

definition pad0 :: "nat \<Rightarrow> int \<Rightarrow> string" where
  "pad0 w n = (let ds = natDigits (nat n) in replicate (w - length ds) (CHR ''0'') @ ds)"

text \<open>The year of \<open>toISOString\<close>: four digits from 0 to 9999, else a sign and six digits.\<close>

definition isoYear :: "int \<Rightarrow> string" where
  "isoYear y =
     (if 0 \<le> y \<and> y \<le> 9999 then pad0 4 y
      else (if y < 0 then CHR ''-'' else CHR ''+'') # pad0 6 \<bar>y\<bar>)"

definition toISOString :: "int \<Rightarrow> string" where
  "toISOString t =
     (let day = t div msPerDay;
          tod = t mod msPerDay;
          (y, m, d) = civilFromDays day
      in isoYear y @ ''-'' @ pad0 2 m @ ''-'' @ pad0 2 d @ ''T''
         @ pad0 2 (tod div 3600000) @ '':'' @ pad0 2 (tod div 60000 mod 60) @ '':''
         @ pad0 2 (tod div 1000 mod 60) @ ''.'' @ pad0 3 (tod mod 1000) @ ''Z'')"

text \<open>\<open>d.toISOString().split('T')[0]\<close>: the text before the first \<open>T\<close>.\<close>

definition isoDatePart :: "int \<Rightarrow> string" where
  "isoDatePart t = takeWhile (\<lambda>c. c \<noteq> CHR ''T'') (toISOString t)"

section \<open>The table store\<close>

text \<open>
  A table holds entities under the compound key of partition key and row key. A table is
  the list of its entities in the order \<open>listEntities\<close> yields them. The client's
  \<open>createEntity\<close> fails on a key that is taken; \<open>updateEntity(e, "Replace")\<close> and
  \<open>deleteEntity\<close> fail on a key that is absent. Where the service lists a new entity is
  its own matter; here it comes last.
\<close>

record tableEntity =
  partitionKey :: string
  rowKey :: string

datatype storeError = EntityAlreadyExists | ResourceNotFound

fun storeMessage :: "storeError \<Rightarrow> string" where
  "storeMessage EntityAlreadyExists = ''The specified entity already exists.''"
| "storeMessage ResourceNotFound = ''The specified resource does not exist.''"

definition hasKey :: "string \<Rightarrow> string \<Rightarrow> 'a tableEntity_scheme \<Rightarrow> bool" where
  "hasKey pk rk e = (partitionKey e = pk \<and> rowKey e = rk)"

definition createEntity ::
  "'a tableEntity_scheme \<Rightarrow> 'a tableEntity_scheme list \<Rightarrow> storeError + 'a tableEntity_scheme list" where
  "createEntity e tbl =
     (if list_ex (hasKey (partitionKey e) (rowKey e)) tbl then Inl EntityAlreadyExists
      else Inr (tbl @ [e]))"

definition updateEntity ::
  "'a tableEntity_scheme \<Rightarrow> 'a tableEntity_scheme list \<Rightarrow> storeError + 'a tableEntity_scheme list" where
  "updateEntity e tbl =
     (if list_ex (hasKey (partitionKey e) (rowKey e)) tbl
      then Inr (map (\<lambda>x. if hasKey (partitionKey e) (rowKey e) x then e else x) tbl)
      else Inl ResourceNotFound)"

definition deleteEntity ::
  "string \<Rightarrow> string \<Rightarrow> 'a tableEntity_scheme list \<Rightarrow> storeError + 'a tableEntity_scheme list" where
  "deleteEntity pk rk tbl =
     (if list_ex (hasKey pk rk) tbl then Inr (filter (\<lambda>x. \<not> hasKey pk rk x) tbl)
      else Inl ResourceNotFound)"

text \<open>The scan \<open>for await (const entity of client.listEntities()) if (entity.rowKey === id)
  { ...; break; }\<close>: the first entity with the row key.\<close>

definition findByRowKey :: "string \<Rightarrow> 'a tableEntity_scheme list \<Rightarrow> 'a tableEntity_scheme option" where
  "findByRowKey rk tbl = find (\<lambda>e. rowKey e = rk) tbl"

section \<open>Sessions\<close>

record session = tableEntity +
  videoId :: jsval
  title :: jsval
  description :: jsval
  url :: jsval
  startTime :: jsval
  duration :: jsval

text \<open>What a handler returns: the status and the JSON body.\<close>

datatype respBody =
    ErrorBody string "string option"
  | MessageBody string
  | CreatedBody string string string
  | ImportBody string nat nat "string list"

record response =
  status :: nat
  jsonBody :: respBody

text \<open>A parsed JSON object; reading a property that is absent gives \<open>undefined\<close>.\<close>

type_synonym jsobject = "string \<rightharpoonup> jsval"

definition getProp :: "jsobject \<Rightarrow> string \<Rightarrow> jsval" where
  "getProp body k = (case body k of None \<Rightarrow> JUndefined | Some v \<Rightarrow> v)"

definition watchUrl :: "jsval \<Rightarrow> string" where
  "watchUrl v = ''https://www.youtube.com/watch?v='' @ toStringJs v"

text \<open>The entity \<open>addScheduleItem\<close> builds from the body.\<close>

definition newEntity :: "string \<Rightarrow> string \<Rightarrow> jsobject \<Rightarrow> session" where
  "newEntity pk sessionId body =
     \<lparr>partitionKey = pk,
      rowKey = sessionId,
      videoId = getProp body ''videoId'',
      title = getProp body ''title'',
      description = orElse (getProp body ''description'') (JStr []),
      url = orElse (getProp body ''url'') (JStr (watchUrl (getProp body ''videoId''))),
      startTime = getProp body ''startTime'',
      duration = orElse (getProp body ''duration'') (JNum 0)\<rparr>"

text \<open>
  \<open>addScheduleItem\<close>. \<open>sessionId\<close> is what \<open>generateSessionId()\<close> returned. An invalid date
  makes \<open>toISOString\<close> throw a RangeError, and a failed \<open>createEntity\<close> throws; both reach
  the handler's \<open>catch\<close>.
\<close>

definition addScheduleItem ::
  "(string \<Rightarrow> int option) \<Rightarrow> string \<Rightarrow> jsobject \<Rightarrow> session list \<Rightarrow> response \<times> session list" where
  "addScheduleItem hostParse sessionId body tbl =
     (case newDate hostParse (getProp body ''startTime'') of
        None \<Rightarrow>
          (\<lparr>status = 500,
            jsonBody = ErrorBody ''Failed to add schedule item'' (Some ''Invalid time value'')\<rparr>, tbl)
      | Some startDate \<Rightarrow>
          (case createEntity (newEntity (isoDatePart startDate) sessionId body) tbl of
             Inl err \<Rightarrow>
               (\<lparr>status = 500,
                 jsonBody = ErrorBody ''Failed to add schedule item'' (Some (storeMessage err))\<rparr>, tbl)
           | Inr tbl' \<Rightarrow>
               (\<lparr>status = 201,
                 jsonBody = CreatedBody ''Schedule item created'' sessionId sessionId\<rparr>, tbl')))"

text \<open>The entity \<open>updateScheduleItem\<close> writes for the request's \<open>id\<close> (here \<open>ident\<close>), its body
  and the entity it found.\<close>

definition updatedEntity :: "string \<Rightarrow> jsobject \<Rightarrow> session \<Rightarrow> session" where
  "updatedEntity ident body existingEntity =
     \<lparr>partitionKey = partitionKey existingEntity,
      rowKey = ident,
      videoId = orElse (getProp body ''videoId'') (videoId existingEntity),
      title = orElse (getProp body ''title'') (title existingEntity),
      description = (if getProp body ''description'' \<noteq> JUndefined then getProp body ''description''
                     else description existingEntity),
      url = orElse (getProp body ''url'') (url existingEntity),
      startTime = orElse (getProp body ''startTime'') (startTime existingEntity),
      duration = (if getProp body ''duration'' \<noteq> JUndefined then getProp body ''duration''
                  else duration existingEntity)\<rparr>"

definition updateScheduleItem :: "string \<Rightarrow> jsobject \<Rightarrow> session list \<Rightarrow> response \<times> session list" where
  "updateScheduleItem ident body tbl =
     (case findByRowKey ident tbl of
        None \<Rightarrow> (\<lparr>status = 404, jsonBody = ErrorBody ''Schedule item not found'' None\<rparr>, tbl)
      | Some existingEntity \<Rightarrow>
          (case updateEntity (updatedEntity ident body existingEntity) tbl of
             Inl err \<Rightarrow>
               (\<lparr>status = 500,
                 jsonBody = ErrorBody ''Failed to update schedule item'' (Some (storeMessage err))\<rparr>, tbl)
           | Inr tbl' \<Rightarrow> (\<lparr>status = 200, jsonBody = MessageBody ''Schedule item updated''\<rparr>, tbl')))"

subsection \<open>CSV import\<close>

text \<open>
  \<open>parseInt(s)\<close>: leading white space, a sign, then hexadecimal digits after \<open>0x\<close> or \<open>0X\<close>
  and decimal digits otherwise; the result is the number value of the integer they
  write, and \<open>None\<close> is \<open>NaN\<close>.
\<close>

definition digitOf :: "nat \<Rightarrow> char \<Rightarrow> nat option" where
  "digitOf radix c =
     (let n = (of_char c :: nat);
          v = (if 48 \<le> n \<and> n \<le> 57 then Some (n - 48)
               else if 97 \<le> n \<and> n \<le> 102 then Some (n - 87)
               else if 65 \<le> n \<and> n \<le> 70 then Some (n - 55)
               else None)
      in case v of None \<Rightarrow> None | Some d \<Rightarrow> if d < radix then Some d else None)"

definition parseInt :: "string \<Rightarrow> jsval option" where
  "parseInt s =
     (let s1 = dropWhile isJsSpace s;
          neg = startsWith s1 ''-'';
          s2 = (if startsWith s1 ''-'' \<or> startsWith s1 ''+'' then drop 1 s1 else s1);
          hex = (startsWith s2 ''0x'' \<or> startsWith s2 ''0X'');
          radix = (if hex then 16 else 10);
          s3 = (if hex then drop 2 s2 else s2);
          ds = takeWhile (\<lambda>c. digitOf radix c \<noteq> None) s3;
          n = foldl (\<lambda>a c. a * int radix + int (the (digitOf radix c))) 0 ds
      in if ds = [] then None else Some (toNumber (if neg then - n else n)))"

text \<open>
  \<open>headers.forEach((header, index) => { record[header] = values[index] || ''; })\<close>: a
  later column of the same name overwrites an earlier one, and a column the row does not
  reach is the empty string.
\<close>

definition valueAt :: "string list \<Rightarrow> nat \<Rightarrow> string" where
  "valueAt vals i = (if i < length vals then vals ! i else [])"

definition buildRecord :: "string list \<Rightarrow> string list \<Rightarrow> (string \<rightharpoonup> string)" where
  "buildRecord headers vals =
     fold (\<lambda>(header, index) record. record(header \<mapsto> valueAt vals index))
       (zip headers [0..<length headers]) Map.empty"

text \<open>\<open>record.k\<close>, and \<open>record.k?.trim()\<close>.\<close>

definition field :: "(string \<rightharpoonup> string) \<Rightarrow> string \<Rightarrow> jsval" where
  "field r k = (case r k of None \<Rightarrow> JUndefined | Some s \<Rightarrow> JStr s)"

definition fieldTrim :: "(string \<rightharpoonup> string) \<Rightarrow> string \<Rightarrow> jsval" where
  "fieldTrim r k = (case r k of None \<Rightarrow> JUndefined | Some s \<Rightarrow> JStr (trim s))"

record importResults =
  created :: nat
  updated :: nat
  errors :: "string list"

definition rowError :: "nat \<Rightarrow> string \<Rightarrow> importResults \<Rightarrow> importResults" where
  "rowError i msg results =
     results\<lparr>errors := errors results @ [''Row '' @ natDigits (i + 1) @ '': '' @ msg]\<rparr>"

text \<open>
  The parts of the body of the import loop: the record of a row, its session id
  (\<open>genId\<close> is what \<open>generateSessionId()\<close> returns when the row has none), its start date
  and the entity built from it.
\<close>

definition rowRecord :: "string list \<Rightarrow> string \<Rightarrow> (string \<rightharpoonup> string)" where
  "rowRecord headers row = buildRecord headers (parseCsvLine row)"

definition rowSessionId :: "string \<Rightarrow> (string \<rightharpoonup> string) \<Rightarrow> string" where
  "rowSessionId genId record = toStringJs (orElse (fieldTrim record ''sessionid'') (JStr genId))"

definition rowStartDate :: "(string \<Rightarrow> int option) \<Rightarrow> (string \<rightharpoonup> string) \<Rightarrow> int option" where
  "rowStartDate hostParse record = newDate hostParse (field record ''starttime'')"

definition rowEntity :: "string \<Rightarrow> string \<Rightarrow> (string \<rightharpoonup> string) \<Rightarrow> session" where
  "rowEntity pk sessionId record =
     \<lparr>partitionKey = pk,
      rowKey = sessionId,
      videoId = orElse (fieldTrim record ''videoid'') (JStr []),
      title = orElse (fieldTrim record ''title'') (JStr []),
      description = orElse (field record ''description'') (JStr []),
      url = orElse (fieldTrim record ''url'') (JStr (watchUrl (fieldTrim record ''videoid''))),
      startTime = orElse (fieldTrim record ''starttime'') (JStr []),
      duration = (case parseInt (toStringJs (field record ''duration'')) of
                    None \<Rightarrow> JNum 0 | Some n \<Rightarrow> orElse n (JNum 0))\<rparr>"

definition invalidStartTime :: "(string \<rightharpoonup> string) \<Rightarrow> string" where
  "invalidStartTime record =
     ''Invalid startTime '' @ [DQUOTE] @ toStringJs (field record ''starttime'') @ [DQUOTE]"

text \<open>
  The body of the import loop for the row at index \<open>i\<close> of \<open>rows\<close>, from the record on.
  A store call that throws is caught by the row's \<open>catch\<close>, which records the message.
\<close>

definition importRecord ::
  "(string \<Rightarrow> int option) \<Rightarrow> string \<Rightarrow> nat \<Rightarrow> (string \<rightharpoonup> string)
     \<Rightarrow> session list \<times> importResults \<Rightarrow> session list \<times> importResults" where
  "importRecord hostParse genId i record state =
     (let tbl = fst state;
          results = snd state;
          sessionId = rowSessionId genId record
      in case rowStartDate hostParse record of
           None \<Rightarrow> (tbl, rowError i (invalidStartTime record) results)
         | Some startDate \<Rightarrow>
             let pk = isoDatePart startDate;
                 entity = rowEntity pk sessionId record
             in case findByRowKey sessionId tbl of
                  Some existing \<Rightarrow>
                    if partitionKey existing \<noteq> pk then
                      (case deleteEntity (partitionKey existing) (rowKey existing) tbl of
                         Inl err \<Rightarrow> (tbl, rowError i (storeMessage err) results)
                       | Inr tbl1 \<Rightarrow>
                           (case createEntity entity tbl1 of
                              Inl err \<Rightarrow> (tbl1, rowError i (storeMessage err) results)
                            | Inr tbl2 \<Rightarrow> (tbl2, results\<lparr>updated := updated results + 1\<rparr>)))
                    else
                      (case updateEntity entity tbl of
                         Inl err \<Rightarrow> (tbl, rowError i (storeMessage err) results)
                       | Inr tbl1 \<Rightarrow> (tbl1, results\<lparr>updated := updated results + 1\<rparr>))
                | None \<Rightarrow>
                    (case createEntity entity tbl of
                       Inl err \<Rightarrow> (tbl, rowError i (storeMessage err) results)
                     | Inr tbl1 \<Rightarrow> (tbl1, results\<lparr>created := created results + 1\<rparr>)))"

definition importRow ::
  "(string \<Rightarrow> int option) \<Rightarrow> string \<Rightarrow> string list \<Rightarrow> nat \<Rightarrow> string
     \<Rightarrow> session list \<times> importResults \<Rightarrow> session list \<times> importResults" where
  "importRow hostParse genId headers i row state =
     importRecord hostParse genId i (rowRecord headers row) state"

text \<open>
  The loop body of the older \<open>importSchedule\<close> differs from the one above in its line
  parser and in that the scan with its writes stands in a \<open>try\<close> of its own, whose \<open>catch\<close>
  tries \<open>createEntity\<close> once more and counts the row as created when that works.
\<close>

definition rowRecord_v1 :: "string list \<Rightarrow> string \<Rightarrow> (string \<rightharpoonup> string)" where
  "rowRecord_v1 headers row = buildRecord headers (parseCsvLine_v1 row)"

text \<open>The inner \<open>catch (entityError)\<close>: one more \<open>createEntity\<close>, on the table as the failed
  attempt left it.\<close>

definition retryCreate ::
  "session \<Rightarrow> nat \<Rightarrow> session list \<Rightarrow> importResults \<Rightarrow> session list \<times> importResults" where
  "retryCreate entity i tbl results =
     (case createEntity entity tbl of
        Inl err \<Rightarrow> (tbl, rowError i (storeMessage err) results)
      | Inr tbl' \<Rightarrow> (tbl', results\<lparr>created := created results + 1\<rparr>))"

definition importScheduleRecord ::
  "(string \<Rightarrow> int option) \<Rightarrow> string \<Rightarrow> nat \<Rightarrow> (string \<rightharpoonup> string)
     \<Rightarrow> session list \<times> importResults \<Rightarrow> session list \<times> importResults" where
  "importScheduleRecord hostParse genId i record state =
     (let tbl = fst state;
          results = snd state;
          sessionId = rowSessionId genId record
      in case rowStartDate hostParse record of
           None \<Rightarrow> (tbl, rowError i (invalidStartTime record) results)
         | Some startDate \<Rightarrow>
             let pk = isoDatePart startDate;
                 entity = rowEntity pk sessionId record
             in case findByRowKey sessionId tbl of
                  Some existing \<Rightarrow>
                    if partitionKey existing \<noteq> pk then
                      (case deleteEntity (partitionKey existing) (rowKey existing) tbl of
                         Inl err \<Rightarrow> retryCreate entity i tbl results
                       | Inr tbl1 \<Rightarrow>
                           (case createEntity entity tbl1 of
                              Inl err \<Rightarrow> retryCreate entity i tbl1 results
                            | Inr tbl2 \<Rightarrow> (tbl2, results\<lparr>updated := updated results + 1\<rparr>)))
                    else
                      (case updateEntity entity tbl of
                         Inl err \<Rightarrow> retryCreate entity i tbl results
                       | Inr tbl1 \<Rightarrow> (tbl1, results\<lparr>updated := updated results + 1\<rparr>))
                | None \<Rightarrow>
                    (case createEntity entity tbl of
                       Inl err \<Rightarrow> retryCreate entity i tbl results
                     | Inr tbl1 \<Rightarrow> (tbl1, results\<lparr>created := created results + 1\<rparr>)))"

definition importSchedule_row ::
  "(string \<Rightarrow> int option) \<Rightarrow> string \<Rightarrow> string list \<Rightarrow> nat \<Rightarrow> string
     \<Rightarrow> session list \<times> importResults \<Rightarrow> session list \<times> importResults" where
  "importSchedule_row hostParse genId headers i row state =
     importScheduleRecord hostParse genId i (rowRecord_v1 headers row) state"

text \<open>\<open>for (let i = 1; i < rows.length; i++)\<close> over the data rows that are left, \<open>genIds i\<close>
  being the id generated during row \<open>i\<close>.\<close>

fun importRows ::
  "(string \<Rightarrow> int option) \<Rightarrow> (nat \<Rightarrow> string) \<Rightarrow> string list \<Rightarrow> nat \<Rightarrow> string list
     \<Rightarrow> session list \<times> importResults \<Rightarrow> session list \<times> importResults" where
  "importRows hostParse genIds headers i [] state = state"
| "importRows hostParse genIds headers i (row # rest) state =
     importRows hostParse genIds headers (i + 1) rest
       (importRow hostParse (genIds i) headers i row state)"

definition requiredColumns :: "string list" where
  "requiredColumns = [''videoid'', ''title'', ''starttime'']"

text \<open>\<open>importScheduleFromCsv\<close> on the request text.\<close>

definition importScheduleFromCsv ::
  "(string \<Rightarrow> int option) \<Rightarrow> (nat \<Rightarrow> string) \<Rightarrow> string \<Rightarrow> session list \<Rightarrow> response \<times> session list" where
  "importScheduleFromCsv hostParse genIds body tbl =
     (case parseCsv body of
        headerLine # dataRow # moreRows \<Rightarrow>
          (let headers = map (\<lambda>h. toLowerCase (trim h)) (parseCsvLine headerLine)
           in case find (\<lambda>col. col \<notin> set headers) requiredColumns of
                Some col \<Rightarrow>
                  (\<lparr>status = 400,
                    jsonBody = ErrorBody (''Missing required column: '' @ col) None\<rparr>, tbl)
              | None \<Rightarrow>
                  (let final = importRows hostParse genIds headers 1 (dataRow # moreRows)
                                 (tbl, \<lparr>created = 0, updated = 0, errors = []\<rparr>)
                   in (\<lparr>status = 200,
                        jsonBody = ImportBody ''Import completed'' (created (snd final))
                                     (updated (snd final)) (errors (snd final))\<rparr>, fst final)))
      | _ \<Rightarrow>
          (\<lparr>status = 400,
            jsonBody = ErrorBody ''CSV must have header row and at least one data row'' None\<rparr>, tbl))"

section \<open>Speakers\<close>

text \<open>
  A speaker entity. \<open>sessionIds\<close> is stored as the JSON text of an array of session ids
  and is modelled by that array; \<open>None\<close> is a property that is absent or empty. The
  profile holds the other properties (title, company, bio, headshotFile, linkedin,
  twitter).
\<close>

record speaker = tableEntity +
  name :: string
  profile :: jsobject
  sessionIds :: "string list option"

text \<open>\<open>[...new Set(xs)]\<close>: a set keeps the first occurrence of each element, in insertion
  order.\<close>

definition setAdd :: "string list \<Rightarrow> string \<Rightarrow> string list" where
  "setAdd s x = (if x \<in> set s then s else s @ [x])"

definition newSet :: "string list \<Rightarrow> string list" where
  "newSet xs = foldl setAdd [] xs"

text \<open>\<open>existingSpeakers\<close>: the map from lower-cased name to entity filled by the scan; a
  later entity of the same name replaces an earlier one.\<close>

definition existingSpeakersOf :: "speaker list \<Rightarrow> (string \<rightharpoonup> speaker)" where
  "existingSpeakersOf tbl = fold (\<lambda>entity m. m(toLowerCase (name entity) \<mapsto> entity)) tbl Map.empty"

datatype speakerAction = ActionCreated | ActionUpdated

record extractResults =
  createdCount :: nat
  updatedCount :: nat
  speakers :: "(string \<times> speakerAction \<times> nat) list"

text \<open>The session ids the merge path stores for the entity it found.\<close>

definition mergedSessionIds :: "speaker \<Rightarrow> string list \<Rightarrow> string list" where
  "mergedSessionIds existing ids =
     (let existingSessionIds = (case sessionIds existing of None \<Rightarrow> [] | Some xs \<Rightarrow> xs)
      in newSet (existingSessionIds @ ids))"

text \<open>
  One round of the loop \<open>for (const [lowerName, displayName] of extractedSpeakers)\<close> of
  \<open>extractSpeakers\<close>. \<open>speakerSessions\<close> maps a lower-cased name to the session ids it was
  found in. A store call that throws ends the handler.
\<close>

definition extractStep ::
  "(string \<rightharpoonup> speaker) \<Rightarrow> (string \<rightharpoonup> string list) \<Rightarrow> (string \<Rightarrow> string) \<Rightarrow> string \<times> string
     \<Rightarrow> speaker list \<times> extractResults \<Rightarrow> storeError + speaker list \<times> extractResults" where
  "extractStep existingSpeakers speakerSessions generateSpeakerId entry state =
     (let lowerName = fst entry;
          displayName = snd entry;
          tbl = fst state;
          results = snd state;
          ids = (case speakerSessions lowerName of None \<Rightarrow> [] | Some xs \<Rightarrow> xs)
      in case existingSpeakers lowerName of
           Some existing \<Rightarrow>
             (let merged = mergedSessionIds existing ids
              in case updateEntity (existing\<lparr>sessionIds := Some merged\<rparr>) tbl of
                   Inl err \<Rightarrow> Inl err
                 | Inr tbl' \<Rightarrow>
                     Inr (tbl', results\<lparr>updatedCount := updatedCount results + 1,
                                        speakers := speakers results
                                          @ [(displayName, ActionUpdated, length merged)]\<rparr>))
         | None \<Rightarrow>
             (let entity = \<lparr>partitionKey = ''speaker'',
                            rowKey = generateSpeakerId displayName,
                            name = displayName,
                            profile = [''title'' \<mapsto> JStr [], ''company'' \<mapsto> JStr [],
                                       ''bio'' \<mapsto> JStr [], ''headshotFile'' \<mapsto> JStr [],
                                       ''linkedin'' \<mapsto> JStr [], ''twitter'' \<mapsto> JStr []],
                            sessionIds = Some ids\<rparr>
              in case createEntity entity tbl of
                   Inl err \<Rightarrow> Inl err
                 | Inr tbl' \<Rightarrow>
                     Inr (tbl', results\<lparr>createdCount := createdCount results + 1,
                                        speakers := speakers results
                                          @ [(displayName, ActionCreated, length ids)]\<rparr>)))"

fun extractLoop ::
  "(string \<rightharpoonup> speaker) \<Rightarrow> (string \<rightharpoonup> string list) \<Rightarrow> (string \<Rightarrow> string) \<Rightarrow> (string \<times> string) list
     \<Rightarrow> speaker list \<times> extractResults \<Rightarrow> storeError + speaker list \<times> extractResults" where
  "extractLoop existingSpeakers speakerSessions generateSpeakerId [] state = Inr state"
| "extractLoop existingSpeakers speakerSessions generateSpeakerId (entry # rest) state =
     (case extractStep existingSpeakers speakerSessions generateSpeakerId entry state of
        Inl err \<Rightarrow> Inl err
      | Inr state' \<Rightarrow> extractLoop existingSpeakers speakerSessions generateSpeakerId rest state')"

text \<open>
  The writing half of \<open>extractSpeakers\<close>: \<open>extractedSpeakers\<close> (lower-cased name and display
  name, in insertion order) and \<open>speakerSessions\<close> are what the scan of the session
  descriptions collected.
\<close>

definition extractSpeakers ::
  "(string \<Rightarrow> string) \<Rightarrow> (string \<times> string) list \<Rightarrow> (string \<rightharpoonup> string list) \<Rightarrow> speaker list
     \<Rightarrow> storeError + speaker list \<times> extractResults" where
  "extractSpeakers generateSpeakerId extractedSpeakers speakerSessions tbl =
     extractLoop (existingSpeakersOf tbl) speakerSessions generateSpeakerId extractedSpeakers
       (tbl, \<lparr>createdCount = 0, updatedCount = 0, speakers = []\<rparr>)"

section \<open>Properties of the CSV codec\<close>

lemma parseCsvLine_loop_quoted:
  "parseCsvLine_loop (doubleQuotes s @ [DQUOTE]) fs cur True = fs @ [stripExcelQuote (cur @ s)]"
  by (induction s arbitrary: cur) (auto simp: doubleQuotes_def)

lemma parseCsvLine_loop_plain:
  "\<not> includesChar s DQUOTE \<Longrightarrow> \<not> includesChar s COMMA \<Longrightarrow>
   parseCsvLine_loop s fs cur False = fs @ [stripExcelQuote (cur @ s)]"
  by (induction s arbitrary: cur) (auto simp: includesChar_def)

lemma stripExcelQuote_protected: "startsWithFormula x \<Longrightarrow> stripExcelQuote (SQUOTE # x) = x"
  by (cases x)
    (auto simp: stripExcelQuote_def startsWithFormula_def charAt_def substring1_def formulaChars_def)

lemma stripExcelQuote_formula: "startsWithFormula x \<Longrightarrow> stripExcelQuote x = x"
  by (cases x) (auto simp: stripExcelQuote_def startsWithFormula_def formulaChars_def)

lemma parse_escape: "parseCsvLine (escapeCsvField (JStr x)) = [stripExcelQuote x]"
  by (auto simp: parseCsvLine_def escapeCsvField_def Let_def parseCsvLine_loop_quoted
      parseCsvLine_loop_plain stripExcelQuote_protected stripExcelQuote_formula)

lemma stripExcelQuote_fixed:
  "(stripExcelQuote x = x) = (\<not> (\<exists>ch\<in>set formulaChars. \<exists>rest. x = SQUOTE # ch # rest))"
proof (cases x)
  case Nil
  then show ?thesis by (simp add: stripExcelQuote_def)
next
  case outer: (Cons a y)
  show ?thesis
  proof (cases y)
    case Nil
    with outer show ?thesis
      by (auto simp: stripExcelQuote_def charAt_def formulaChars_def substring1_def)
  next
    case (Cons b z)
    with outer show ?thesis
      by (auto simp: stripExcelQuote_def charAt_def formulaChars_def substring1_def)
  qed
qed

text \<open>
  C1, as the code has it. Parsing the escaped field gives the string back exactly when
  the string does not itself begin with a single quote followed by one of \<open>- + = @\<close>; in
  every case it gives \<open>stripExcelQuote\<close> of the string, so such a string comes back
  without its own leading quote. Strings with commas, double quotes, line breaks or a
  leading formula character are among those that come back unchanged.
\<close>

theorem csv_roundtrip_unless_quote_prefixed:
  "parseCsvLine (escapeCsvField (JStr x)) = [stripExcelQuote x]
   \<and> ((parseCsvLine (escapeCsvField (JStr x)) = [x])
        = (\<not> (\<exists>ch\<in>set formulaChars. \<exists>rest. x = SQUOTE # ch # rest)))"
  using stripExcelQuote_fixed [of x] by (simp add: parse_escape)

theorem csv_roundtrip_unless_quote_prefixed_witness:
  "parseCsvLine (escapeCsvField (JStr (''=a,'' @ [DQUOTE, LF] @ ''b''))) = [''=a,'' @ [DQUOTE, LF] @ ''b'']"
proof -
  have "\<not> (\<exists>ch\<in>set formulaChars. \<exists>rest. ''=a,'' @ [DQUOTE, LF] @ ''b'' = SQUOTE # ch # rest)"
    by simp
  with csv_roundtrip_unless_quote_prefixed [of "''=a,'' @ [DQUOTE, LF] @ ''b''"]
  show ?thesis by blast
qed

text \<open>
  C1 as stated fails: the three characters \<open>'=1\<close> are written unquoted and unchanged, and
  the parser takes their leading quote for formula protection.
\<close>

theorem csv_roundtrip_counterexample:
  "parseCsvLine (escapeCsvField (JStr (SQUOTE # ''=1''))) = [''=1'']
   \<and> parseCsvLine (escapeCsvField (JStr (SQUOTE # ''=1''))) \<noteq> [SQUOTE # ''=1'']"
  by (simp add: parse_escape stripExcelQuote_def charAt_def formulaChars_def substring1_def)

text \<open>
  C6. The value \<open>=SUM(A1)\<close> is written as \<open>"'=SUM(A1)"\<close>, in double quotes and with a
  single quote in front, and that text is parsed back to \<open>=SUM(A1)\<close>.
\<close>

theorem excel_protection_instance:
  "escapeCsvField (JStr ''=SUM(A1)'') = [DQUOTE, SQUOTE] @ ''=SUM(A1)'' @ [DQUOTE]
   \<and> parseCsvLine ([DQUOTE, SQUOTE] @ ''=SUM(A1)'' @ [DQUOTE]) = [''=SUM(A1)'']"
proof
  show e: "escapeCsvField (JStr ''=SUM(A1)'') = [DQUOTE, SQUOTE] @ ''=SUM(A1)'' @ [DQUOTE]"
    by (simp add: escapeCsvField_def startsWithFormula_def formulaChars_def doubleQuotes_def)
  have "parseCsvLine (escapeCsvField (JStr ''=SUM(A1)'')) = [stripExcelQuote ''=SUM(A1)'']"
    by (rule parse_escape)
  then show "parseCsvLine ([DQUOTE, SQUOTE] @ ''=SUM(A1)'' @ [DQUOTE]) = [''=SUM(A1)'']"
    unfolding e by (simp add: stripExcelQuote_def)
qed

lemma dropWhile_all_iff: "(\<forall>c\<in>set (dropWhile P s). P c) = (\<forall>c\<in>set s. P c)"
  by (induction s) auto

lemma trim_empty_iff: "(trim s = []) = (\<forall>c\<in>set s. isJsSpace c)"
  by (simp add: trim_def dropWhile_eq_Nil_conv dropWhile_all_iff)

lemma pushRow_nonblank:
  "\<forall>r\<in>set rows. \<exists>c\<in>set r. \<not> isJsSpace c \<Longrightarrow>
   \<forall>r\<in>set (pushRow rows cur). \<exists>c\<in>set r. \<not> isJsSpace c"
  by (auto simp: pushRow_def trim_empty_iff)

lemma parseCsv_loop_nonblank:
  "\<forall>r\<in>set rows. \<exists>c\<in>set r. \<not> isJsSpace c \<Longrightarrow>
   \<forall>r\<in>set (parseCsv_loop s rows cur inq). \<exists>c\<in>set r. \<not> isJsSpace c"
proof (induction s rows cur inq rule: parseCsv_loop.induct)
  case (1 rows currentRow inQuotes)
  then show ?case using pushRow_nonblank by simp
next
  case (2 c rest rows currentRow inQuotes)
  then show ?case using pushRow_nonblank [of rows currentRow] by (simp split: if_splits)
qed

lemma pushRow_blank: "list_all isJsSpace w \<Longrightarrow> pushRow rows w = rows"
  by (simp add: pushRow_def trim_empty_iff list_all_iff)

section \<open>Properties of the table store\<close>

lemma find_replace_by_key:
  assumes "find (\<lambda>e. rowKey e = rk) tbl = Some ex" and "partitionKey u = partitionKey ex"
    and "rowKey u = rk"
  shows "find (\<lambda>e. rowKey e = rk) (map (\<lambda>x. if hasKey (partitionKey ex) rk x then u else x) tbl) = Some u"
  using assms by (induction tbl) (auto simp: hasKey_def split: if_splits)

lemma find_rowKey_Some: "find (\<lambda>e. rowKey e = rk) tbl = Some ex \<Longrightarrow> ex \<in> set tbl \<and> rowKey ex = rk"
  by (induction tbl) (auto split: if_splits)

lemma find_rowKey_None: "(find (\<lambda>e. rowKey e = rk) tbl = None) = (rk \<notin> rowKey ` set tbl)"
  by (induction tbl) auto

lemma list_ex_hasKey: "ex \<in> set tbl \<Longrightarrow> list_ex (hasKey (partitionKey ex) (rowKey ex)) tbl"
  by (auto simp: list_ex_iff hasKey_def)

section \<open>Session update and creation\<close>

lemma updateScheduleItem_found:
  assumes "findByRowKey ident tbl = Some existing"
  shows "updateScheduleItem ident body tbl =
           (\<lparr>status = 200, jsonBody = MessageBody ''Schedule item updated''\<rparr>,
            map (\<lambda>x. if hasKey (partitionKey existing) ident x
                      then updatedEntity ident body existing else x) tbl)"
proof -
  from assms have mem: "existing \<in> set tbl" and rk: "rowKey existing = ident"
    using find_rowKey_Some [of ident tbl existing] by (simp_all add: findByRowKey_def)
  have "list_ex (hasKey (partitionKey existing) ident) tbl"
    using list_ex_hasKey [OF mem] rk by simp
  then show ?thesis
    using assms by (simp add: updateScheduleItem_def updateEntity_def updatedEntity_def)
qed

text \<open>
  C2. When the session is found, the update answers 200 and writes, in place of every
  entity with the found key, an entity that keeps the partition key and the row key and
  keeps the stored value of every field the body omits; the entity read back under the
  id is that entity. A body that is exactly \<open>{title: "New Title"}\<close> changes the title and
  nothing else.
\<close>

theorem update_retains_omitted_fields:
  assumes "findByRowKey ident tbl = Some existing"
  shows "updateScheduleItem ident body tbl =
           (\<lparr>status = 200, jsonBody = MessageBody ''Schedule item updated''\<rparr>,
            map (\<lambda>x. if hasKey (partitionKey existing) ident x
                      then updatedEntity ident body existing else x) tbl)
    \<and> findByRowKey ident (snd (updateScheduleItem ident body tbl))
        = Some (updatedEntity ident body existing)
    \<and> partitionKey (updatedEntity ident body existing) = partitionKey existing
    \<and> rowKey (updatedEntity ident body existing) = rowKey existing
    \<and> (body ''videoId'' = None \<longrightarrow> videoId (updatedEntity ident body existing) = videoId existing)
    \<and> (body ''title'' = None \<longrightarrow> title (updatedEntity ident body existing) = title existing)
    \<and> (body ''description'' = None
        \<longrightarrow> description (updatedEntity ident body existing) = description existing)
    \<and> (body ''url'' = None \<longrightarrow> url (updatedEntity ident body existing) = url existing)
    \<and> (body ''startTime'' = None
        \<longrightarrow> startTime (updatedEntity ident body existing) = startTime existing)
    \<and> (body ''duration'' = None
        \<longrightarrow> duration (updatedEntity ident body existing) = duration existing)
    \<and> (body = [''title'' \<mapsto> JStr ''New Title'']
        \<longrightarrow> updatedEntity ident body existing = existing\<lparr>title := JStr ''New Title''\<rparr>)"
proof -
  from assms have rk: "rowKey existing = ident"
    using find_rowKey_Some [of ident tbl existing] by (simp add: findByRowKey_def)
  have upd: "updateScheduleItem ident body tbl =
           (\<lparr>status = 200, jsonBody = MessageBody ''Schedule item updated''\<rparr>,
            map (\<lambda>x. if hasKey (partitionKey existing) ident x
                      then updatedEntity ident body existing else x) tbl)"
    by (rule updateScheduleItem_found [OF assms])
  have reread: "findByRowKey ident (snd (updateScheduleItem ident body tbl))
        = Some (updatedEntity ident body existing)"
    unfolding upd findByRowKey_def snd_conv
    by (rule find_replace_by_key)
      (use assms in \<open>simp_all add: findByRowKey_def updatedEntity_def\<close>)
  have keys: "partitionKey (updatedEntity ident body existing) = partitionKey existing"
    "rowKey (updatedEntity ident body existing) = rowKey existing"
    using rk by (simp_all add: updatedEntity_def)
  have omitted:
    "body ''videoId'' = None \<longrightarrow> videoId (updatedEntity ident body existing) = videoId existing"
    "body ''title'' = None \<longrightarrow> title (updatedEntity ident body existing) = title existing"
    "body ''description'' = None
        \<longrightarrow> description (updatedEntity ident body existing) = description existing"
    "body ''url'' = None \<longrightarrow> url (updatedEntity ident body existing) = url existing"
    "body ''startTime'' = None
        \<longrightarrow> startTime (updatedEntity ident body existing) = startTime existing"
    "body ''duration'' = None
        \<longrightarrow> duration (updatedEntity ident body existing) = duration existing"
    by (simp_all add: updatedEntity_def getProp_def orElse_def)
  have only_title: "body = [''title'' \<mapsto> JStr ''New Title'']
        \<longrightarrow> updatedEntity ident body existing = existing\<lparr>title := JStr ''New Title''\<rparr>"
    using rk by (auto simp: updatedEntity_def getProp_def orElse_def)
  from upd reread keys omitted only_title show ?thesis by blast
qed

theorem update_retains_omitted_fields_witness:
  "updateScheduleItem ''s1'' [''title'' \<mapsto> JStr ''New Title'']
     [\<lparr>partitionKey = ''2026-03-15'', rowKey = ''s1'', videoId = JStr ''v'', title = JStr ''Old'',
       description = JStr ''d'', url = JStr ''u'', startTime = JStr ''2026-03-15T14:00:00Z'',
       duration = JNum 30\<rparr>]
   = (\<lparr>status = 200, jsonBody = MessageBody ''Schedule item updated''\<rparr>,
      [\<lparr>partitionKey = ''2026-03-15'', rowKey = ''s1'', videoId = JStr ''v'',
        title = JStr ''New Title'', description = JStr ''d'', url = JStr ''u'',
        startTime = JStr ''2026-03-15T14:00:00Z'', duration = JNum 30\<rparr>])"
proof -
  let ?e = "\<lparr>partitionKey = ''2026-03-15'', rowKey = ''s1'', videoId = JStr ''v'', title = JStr ''Old'',
       description = JStr ''d'', url = JStr ''u'', startTime = JStr ''2026-03-15T14:00:00Z'',
       duration = JNum 30\<rparr>"
  have f: "findByRowKey ''s1'' [?e] = Some ?e"
    by (simp add: findByRowKey_def)
  from update_retains_omitted_fields [OF f, of "[''title'' \<mapsto> JStr ''New Title'']"]
  show ?thesis by (simp add: hasKey_def)
qed

text \<open>
  C3, as the code has it. The handler checks no field and never answers 400. When the
  start time is missing or is no valid date it answers 500 and leaves the table as it
  was. When the start time is a valid date and the key is free it answers 201 and adds
  the entity, whatever the body holds for \<open>videoId\<close> and \<open>title\<close>.
\<close>

theorem add_checks_no_required_field:
  "status (fst (addScheduleItem hostParse sessionId body tbl)) \<noteq> 400
   \<and> (body ''startTime'' = None \<or> newDate hostParse (getProp body ''startTime'') = None
        \<longrightarrow> addScheduleItem hostParse sessionId body tbl =
             (\<lparr>status = 500,
               jsonBody = ErrorBody ''Failed to add schedule item'' (Some ''Invalid time value'')\<rparr>,
              tbl))
   \<and> (\<forall>t. newDate hostParse (getProp body ''startTime'') = Some t
            \<and> \<not> list_ex (hasKey (isoDatePart t) sessionId) tbl
        \<longrightarrow> addScheduleItem hostParse sessionId body tbl =
             (\<lparr>status = 201,
               jsonBody = CreatedBody ''Schedule item created'' sessionId sessionId\<rparr>,
              tbl @ [newEntity (isoDatePart t) sessionId body]))"
  by (auto simp: addScheduleItem_def createEntity_def getProp_def newEntity_def
      split: option.splits sum.splits)

theorem add_checks_no_required_field_witness:
  "addScheduleItem (\<lambda>s. None) ''sess_1'' Map.empty [] =
     (\<lparr>status = 500,
       jsonBody = ErrorBody ''Failed to add schedule item'' (Some ''Invalid time value'')\<rparr>, [])"
  using add_checks_no_required_field [of "\<lambda>s. None" "''sess_1''" Map.empty "[]"] by simp

text \<open>
  C3 as stated fails: a body with a video id and a start time but no title is stored and
  answered with 201, not 400.
\<close>

theorem add_missing_title_counterexample:
  "addScheduleItem (\<lambda>s. None) ''sess_1''
     [''videoId'' \<mapsto> JStr ''abc'', ''startTime'' \<mapsto> JStr ''2026-03-15T14:00:00Z''] []
   = (\<lparr>status = 201, jsonBody = CreatedBody ''Schedule item created'' ''sess_1'' ''sess_1''\<rparr>,
      [\<lparr>partitionKey = ''2026-03-15'', rowKey = ''sess_1'', videoId = JStr ''abc'',
        title = JUndefined, description = JStr [],
        url = JStr ''https://www.youtube.com/watch?v=abc'',
        startTime = JStr ''2026-03-15T14:00:00Z'', duration = JNum 0\<rparr>])"
  by code_simp

section \<open>CSV import\<close>

lemma find_missing_column:
  "(find (\<lambda>col. col \<notin> set headers) cols = None) = (\<forall>col\<in>set cols. col \<in> set headers)"
  by (induction cols) auto

text \<open>
  C8. When the parsed content has fewer than two rows, or the header row, trimmed and
  lower-cased, lacks one of \<open>videoid\<close>, \<open>title\<close> and \<open>starttime\<close>, the import answers 400
  with an error message and the table is as it was: no data row is processed.
\<close>

theorem import_structural_validation:
  assumes "length (parseCsv body) < 2
     \<or> \<not> (\<forall>col\<in>set requiredColumns.
            col \<in> set (map (\<lambda>h. toLowerCase (trim h)) (parseCsvLine (hd (parseCsv body)))))"
  shows "\<exists>msg. importScheduleFromCsv hostParse genIds body tbl =
           (\<lparr>status = 400, jsonBody = ErrorBody msg None\<rparr>, tbl)"
proof (cases "parseCsv body")
  case Nil
  then show ?thesis by (simp add: importScheduleFromCsv_def)
next
  case one: (Cons headerLine others)
  show ?thesis
  proof (cases others)
    case Nil
    with one show ?thesis by (simp add: importScheduleFromCsv_def)
  next
    case (Cons dataRow moreRows)
    with one assms
    have "find (\<lambda>col. col \<notin> set (map (\<lambda>h. toLowerCase (trim h)) (parseCsvLine headerLine)))
            requiredColumns \<noteq> None"
      using find_missing_column
        [of "map (\<lambda>h. toLowerCase (trim h)) (parseCsvLine headerLine)" requiredColumns]
      by simp
    then obtain col where
      "find (\<lambda>col. col \<notin> set (map (\<lambda>h. toLowerCase (trim h)) (parseCsvLine headerLine)))
            requiredColumns = Some col"
      by blast
    with one Cons show ?thesis by (simp add: importScheduleFromCsv_def)
  qed
qed

theorem import_structural_validation_witness:
  "\<exists>msg. importScheduleFromCsv (\<lambda>s. None) (\<lambda>i. ''gen'')
      (''videoId,name,startTime'' @ [LF] @ ''v1,Talk,2026-03-15T14:00:00Z'' @ [LF]) []
    = (\<lparr>status = 400, jsonBody = ErrorBody msg None\<rparr>, [])"
proof -
  let ?body = "''videoId,name,startTime'' @ [LF] @ ''v1,Talk,2026-03-15T14:00:00Z'' @ [LF]"
  have rows: "parseCsv ?body = [''videoId,name,startTime'', ''v1,Talk,2026-03-15T14:00:00Z'']"
    by code_simp
  have hdr: "map (\<lambda>h. toLowerCase (trim h)) (parseCsvLine ''videoId,name,startTime'')
               = [''videoid'', ''name'', ''starttime'']"
    by code_simp
  have "length (parseCsv ?body) < 2
     \<or> \<not> (\<forall>col\<in>set requiredColumns.
            col \<in> set (map (\<lambda>h. toLowerCase (trim h)) (parseCsvLine (hd (parseCsv ?body)))))"
    unfolding rows list.sel hdr by (simp add: requiredColumns_def)
  then show ?thesis by (rule import_structural_validation)
qed


lemma importRow_accounts:
  "created (snd (importRow hostParse genId headers i row state))
     + updated (snd (importRow hostParse genId headers i row state))
     + length (errors (snd (importRow hostParse genId headers i row state)))
   = created (snd state) + updated (snd state) + length (errors (snd state)) + 1"
  by (simp add: importRow_def importRecord_def Let_def rowError_def split: option.splits sum.splits)

lemma importRows_accounts:
  "created (snd (importRows hostParse genIds headers i rows state))
     + updated (snd (importRows hostParse genIds headers i rows state))
     + length (errors (snd (importRows hostParse genIds headers i rows state)))
   = created (snd state) + updated (snd state) + length (errors (snd state)) + length rows"
proof (induction rows arbitrary: i state)
  case Nil
  then show ?case by simp
next
  case (Cons row rest)
  show ?case
    using Cons.IH [of "i + 1" "importRow hostParse (genIds i) headers i row state"]
      importRow_accounts [of hostParse "genIds i" headers i row state]
    by simp
qed

lemma import_validated:
  assumes "parseCsv body = headerLine # dataRow # moreRows"
    and "\<forall>col\<in>set requiredColumns.
            col \<in> set (map (\<lambda>h. toLowerCase (trim h)) (parseCsvLine headerLine))"
  shows "importScheduleFromCsv hostParse genIds body tbl =
     (let final = importRows hostParse genIds (map (\<lambda>h. toLowerCase (trim h)) (parseCsvLine headerLine))
                    1 (dataRow # moreRows) (tbl, \<lparr>created = 0, updated = 0, errors = []\<rparr>)
      in (\<lparr>status = 200,
           jsonBody = ImportBody ''Import completed'' (created (snd final)) (updated (snd final))
                        (errors (snd final))\<rparr>, fst final))"
proof -
  have "find (\<lambda>col. col \<notin> set (map (\<lambda>h. toLowerCase (trim h)) (parseCsvLine headerLine)))
          requiredColumns = None"
    using assms(2) find_missing_column by blast
  with assms(1) show ?thesis by (simp add: importScheduleFromCsv_def Let_def)
qed



lemma single_row_unique:
  "length (filter P xs) \<le> 1 \<Longrightarrow> x \<in> set xs \<Longrightarrow> y \<in> set xs \<Longrightarrow> P x \<Longrightarrow> P y \<Longrightarrow> x = y"
proof (induction xs)
  case Nil
  then show ?case by simp
next
  case (Cons a xs)
  show ?case
  proof (cases "P a")
    case True
    with Cons.prems(1) have "filter P xs = []" by simp
    then have "\<forall>z\<in>set xs. \<not> P z" by (simp add: filter_empty_conv)
    with Cons.prems show ?thesis by auto
  next
    case False
    with Cons.prems Cons.IH show ?thesis by auto
  qed
qed

lemma distinct_single_row:
  "distinct (map rowKey tbl) \<Longrightarrow> length (filter (\<lambda>x. rowKey x = sid) tbl) \<le> 1"
  by (induction tbl) (auto simp: filter_empty_conv image_iff)

text \<open>The store calls of the three branches, on a table in which at most one row has the
  row key looked for.\<close>

lemma move_calls:
  assumes "findByRowKey sid tbl = Some ex" and "length (filter (\<lambda>x. rowKey x = sid) tbl) \<le> 1"
    and "partitionKey entity = pk" and "rowKey entity = sid"
  shows "deleteEntity (partitionKey ex) (rowKey ex) tbl
           = Inr (filter (\<lambda>x. \<not> hasKey (partitionKey ex) (rowKey ex) x) tbl)"
    and "createEntity entity (filter (\<lambda>x. \<not> hasKey (partitionKey ex) (rowKey ex) x) tbl)
           = Inr (filter (\<lambda>x. \<not> hasKey (partitionKey ex) (rowKey ex) x) tbl @ [entity])"
proof -
  from assms(1) have mem: "ex \<in> set tbl" and rk: "rowKey ex = sid"
    using find_rowKey_Some [of sid tbl ex] by (simp_all add: findByRowKey_def)
  show "deleteEntity (partitionKey ex) (rowKey ex) tbl
      = Inr (filter (\<lambda>x. \<not> hasKey (partitionKey ex) (rowKey ex) x) tbl)"
    using list_ex_hasKey [OF mem] by (simp add: deleteEntity_def)
  have "\<forall>x\<in>set tbl. rowKey x = sid \<longrightarrow> x = ex"
    using single_row_unique [OF assms(2) _ mem _ rk] by blast
  then have "\<not> list_ex (hasKey (partitionKey entity) (rowKey entity))
      (filter (\<lambda>x. \<not> hasKey (partitionKey ex) (rowKey ex) x) tbl)"
    using rk assms(4) by (auto simp: list_ex_iff hasKey_def)
  then show "createEntity entity (filter (\<lambda>x. \<not> hasKey (partitionKey ex) (rowKey ex) x) tbl)
      = Inr (filter (\<lambda>x. \<not> hasKey (partitionKey ex) (rowKey ex) x) tbl @ [entity])"
    by (simp add: createEntity_def)
qed

lemma replace_call:
  assumes "findByRowKey sid tbl = Some ex" and "partitionKey ex = pk"
    and "partitionKey entity = pk" and "rowKey entity = sid"
  shows "updateEntity entity tbl = Inr (map (\<lambda>x. if hasKey pk sid x then entity else x) tbl)"
proof -
  from assms(1) have mem: "ex \<in> set tbl" and rk: "rowKey ex = sid"
    using find_rowKey_Some [of sid tbl ex] by (simp_all add: findByRowKey_def)
  have "list_ex (hasKey pk sid) tbl"
    using list_ex_hasKey [OF mem] rk assms(2) by simp
  then show ?thesis
    using assms(3,4) by (simp add: updateEntity_def)
qed

lemma create_call:
  assumes "findByRowKey sid tbl = None" and "rowKey entity = sid"
  shows "createEntity entity tbl = Inr (tbl @ [entity])"
proof -
  from assms(1) have "sid \<notin> rowKey ` set tbl"
    using find_rowKey_None [of sid tbl] by (simp add: findByRowKey_def)
  then have "\<forall>x\<in>set tbl. rowKey x \<noteq> sid"
    by force
  then have "\<not> list_ex (hasKey (partitionKey entity) (rowKey entity)) tbl"
    using assms(2) by (simp add: list_ex_iff hasKey_def)
  then show ?thesis
    by (simp add: createEntity_def)
qed

lemma rowEntity_keys:
  "partitionKey (rowEntity pk sid rcd) = pk" "rowKey (rowEntity pk sid rcd) = sid"
  by (simp_all add: rowEntity_def)

lemma importRecord_move:
  assumes "rowStartDate hostParse rcd = Some t"
    and "findByRowKey (rowSessionId genId rcd) tbl = Some ex"
    and "partitionKey ex \<noteq> isoDatePart t"
    and "length (filter (\<lambda>x. rowKey x = rowSessionId genId rcd) tbl) \<le> 1"
  shows "importRecord hostParse genId i rcd (tbl, results) =
     (filter (\<lambda>x. \<not> hasKey (partitionKey ex) (rowKey ex) x) tbl
        @ [rowEntity (isoDatePart t) (rowSessionId genId rcd) rcd],
      results\<lparr>updated := updated results + 1\<rparr>)"
    and "importScheduleRecord hostParse genId i rcd (tbl, results) =
      importRecord hostParse genId i rcd (tbl, results)"
  using assms(1,2,3) move_calls [OF assms(2,4) rowEntity_keys]
  by (simp_all add: importRecord_def importScheduleRecord_def Let_def)

lemma importRecord_replace:
  assumes "rowStartDate hostParse rcd = Some t"
    and "findByRowKey (rowSessionId genId rcd) tbl = Some ex"
    and "partitionKey ex = isoDatePart t"
  shows "importRecord hostParse genId i rcd (tbl, results) =
     (map (\<lambda>x. if hasKey (isoDatePart t) (rowSessionId genId rcd) x
               then rowEntity (isoDatePart t) (rowSessionId genId rcd) rcd
               else x) tbl,
      results\<lparr>updated := updated results + 1\<rparr>)"
    and "importScheduleRecord hostParse genId i rcd (tbl, results) =
      importRecord hostParse genId i rcd (tbl, results)"
  using assms replace_call [OF assms(2,3) rowEntity_keys]
  by (simp_all add: importRecord_def importScheduleRecord_def Let_def)

lemma importRecord_create:
  assumes "rowStartDate hostParse rcd = Some t"
    and "findByRowKey (rowSessionId genId rcd) tbl = None"
  shows "importRecord hostParse genId i rcd (tbl, results) =
     (tbl @ [rowEntity (isoDatePart t) (rowSessionId genId rcd) rcd],
      results\<lparr>created := created results + 1\<rparr>)"
    and "importScheduleRecord hostParse genId i rcd (tbl, results) =
      importRecord hostParse genId i rcd (tbl, results)"
  using assms create_call [OF assms(2) rowEntity_keys(2)]
  by (simp_all add: importRecord_def importScheduleRecord_def Let_def)

lemma replaced_rows:
  assumes "rowKey entity = sid"
  shows "map rowKey (map (\<lambda>x. if hasKey pk sid x then entity else x) tbl) = map rowKey tbl"
  using assms by (induction tbl) (auto simp: hasKey_def)

lemma count_rowKey:
  "length (filter (\<lambda>x. rowKey x = sid) tbl) = length (filter (\<lambda>k. k = sid) (map rowKey tbl))"
  by (induction tbl) auto

text \<open>
  C5, as the code has it. Take the record \<open>rcd\<close> of a row with a valid start date and a
  table in which at most one row has the row's session id as its row key, whatever
  partition it lies under; other row keys may occur more than once. If that row lies
  under another partition key, it is deleted, the row's entity is created under the new
  partition key and the row counts as updated. If it lies under the same partition key,
  the entity replaces it in place and the row counts as updated. If no stored row has
  the id, the entity is created and the row counts as created. Afterwards exactly one
  stored row has the id, row keys that were distinct stay distinct, and the loop body of
  the older import module gives the same table and counts. Each module applies its body
  to the record its line parser gives.
\<close>

theorem import_upsert:
  fixes hostParse genId rcd tbl t
  defines "sid \<equiv> rowSessionId genId rcd"
  defines "entity \<equiv> rowEntity (isoDatePart t) sid rcd"
  assumes "rowStartDate hostParse rcd = Some t"
    and "length (filter (\<lambda>x. rowKey x = sid) tbl) \<le> 1"
  shows "(\<forall>ex. ex \<in> set tbl \<and> rowKey ex = sid \<and> partitionKey ex \<noteq> isoDatePart t \<longrightarrow>
            importRecord hostParse genId i rcd (tbl, results) =
              (filter (\<lambda>x. \<not> hasKey (partitionKey ex) (rowKey ex) x) tbl @ [entity],
               results\<lparr>updated := updated results + 1\<rparr>)
            \<and> ex \<notin> set (fst (importRecord hostParse genId i rcd (tbl, results))))
    \<and> (\<forall>ex. ex \<in> set tbl \<and> rowKey ex = sid \<and> partitionKey ex = isoDatePart t \<longrightarrow>
            importRecord hostParse genId i rcd (tbl, results) =
              (map (\<lambda>x. if hasKey (isoDatePart t) sid x then entity else x) tbl,
               results\<lparr>updated := updated results + 1\<rparr>))
    \<and> (sid \<notin> rowKey ` set tbl \<longrightarrow>
            importRecord hostParse genId i rcd (tbl, results) =
              (tbl @ [entity], results\<lparr>created := created results + 1\<rparr>))
    \<and> length (filter (\<lambda>x. rowKey x = sid) (fst (importRecord hostParse genId i rcd (tbl, results)))) = 1
    \<and> (distinct (map rowKey tbl) \<longrightarrow>
          distinct (map rowKey (fst (importRecord hostParse genId i rcd (tbl, results)))))
    \<and> importScheduleRecord hostParse genId i rcd (tbl, results)
        = importRecord hostParse genId i rcd (tbl, results)
    \<and> importRow hostParse genId headers i row state
        = importRecord hostParse genId i (rowRecord headers row) state
    \<and> importSchedule_row hostParse genId headers i row state
        = importScheduleRecord hostParse genId i (rowRecord_v1 headers row) state"
proof -
  note single = assms(4)
  have uniq: "\<forall>x\<in>set tbl. rowKey x = sid \<longrightarrow> x = ex" if "ex \<in> set tbl" "rowKey ex = sid" for ex
    using single_row_unique [OF single _ that(1) _ that(2)] by blast
  have found: "findByRowKey sid tbl = Some ex" if "ex \<in> set tbl" "rowKey ex = sid" for ex
  proof (cases "findByRowKey sid tbl")
    case None
    with that show ?thesis
      using find_rowKey_None [of sid tbl] by (auto simp: findByRowKey_def)
  next
    case (Some ex')
    then have "ex' \<in> set tbl" "rowKey ex' = sid"
      using find_rowKey_Some [of sid tbl ex'] by (simp_all add: findByRowKey_def)
    with uniq [OF that] Some show ?thesis by auto
  qed
  have move: "importRecord hostParse genId i rcd (tbl, results) =
              (filter (\<lambda>x. \<not> hasKey (partitionKey ex) (rowKey ex) x) tbl @ [entity],
               results\<lparr>updated := updated results + 1\<rparr>)"
    if "ex \<in> set tbl" "rowKey ex = sid" "partitionKey ex \<noteq> isoDatePart t" for ex
    using importRecord_move(1) [OF assms(3) _ that(3),
        where genId = genId and i = i and results = results]
      found [OF that(1,2)] single
    by (simp add: sid_def entity_def)
  have moved_gone: "ex \<notin> set (fst (importRecord hostParse genId i rcd (tbl, results)))"
    if "ex \<in> set tbl" "rowKey ex = sid" "partitionKey ex \<noteq> isoDatePart t" for ex
    using move [OF that] that(3) by (auto simp: hasKey_def entity_def rowEntity_def)
  have replace: "importRecord hostParse genId i rcd (tbl, results) =
              (map (\<lambda>x. if hasKey (isoDatePart t) sid x then entity else x) tbl,
               results\<lparr>updated := updated results + 1\<rparr>)"
    if "ex \<in> set tbl" "rowKey ex = sid" "partitionKey ex = isoDatePart t" for ex
    using importRecord_replace(1) [OF assms(3) _ that(3),
        where genId = genId and i = i and results = results]
      found [OF that(1,2)]
    by (simp add: sid_def entity_def)
  have create: "importRecord hostParse genId i rcd (tbl, results) =
              (tbl @ [entity], results\<lparr>created := created results + 1\<rparr>)"
    if "sid \<notin> rowKey ` set tbl"
    using importRecord_create(1) [OF assms(3),
        where genId = genId and tbl = tbl and i = i and results = results] that
      find_rowKey_None [of sid tbl]
    by (simp add: sid_def entity_def findByRowKey_def)
  have rk_entity: "rowKey entity = sid"
    by (simp add: entity_def rowEntity_def)
  have one: "length (filter (\<lambda>x. rowKey x = sid)
      (fst (importRecord hostParse genId i rcd (tbl, results)))) = 1"
  proof (cases "sid \<in> rowKey ` set tbl")
    case False
    then have "filter (\<lambda>x. rowKey x = sid) tbl = []"
      by (auto simp: filter_empty_conv)
    with create [OF False] rk_entity show ?thesis by simp
  next
    case True
    then obtain ex where ex: "ex \<in> set tbl" "rowKey ex = sid" by auto
    then have "filter (\<lambda>x. rowKey x = sid) tbl \<noteq> []"
      by (auto simp: filter_empty_conv)
    with single have len1: "length (filter (\<lambda>x. rowKey x = sid) tbl) = 1"
      by (cases "filter (\<lambda>x. rowKey x = sid) tbl") simp_all
    show ?thesis
    proof (cases "partitionKey ex = isoDatePart t")
      case True
      have "length (filter (\<lambda>x. rowKey x = sid)
            (map (\<lambda>x. if hasKey (isoDatePart t) sid x then entity else x) tbl))
          = length (filter (\<lambda>x. rowKey x = sid) tbl)"
        unfolding count_rowKey replaced_rows [OF rk_entity] ..
      with replace [OF ex True] len1 show ?thesis by simp
    next
      case False
      have "filter (\<lambda>x. rowKey x = sid) (filter (\<lambda>x. \<not> hasKey (partitionKey ex) (rowKey ex) x) tbl) = []"
        using uniq [OF ex] ex(2) by (auto simp: filter_empty_conv hasKey_def)
      with move [OF ex False] rk_entity show ?thesis by simp
    qed
  qed
  have keep: "distinct (map rowKey (fst (importRecord hostParse genId i rcd (tbl, results))))"
    if dist: "distinct (map rowKey tbl)"
  proof (cases "sid \<in> rowKey ` set tbl")
    case False
    with create dist rk_entity show ?thesis by auto
  next
    case True
    then obtain ex where ex: "ex \<in> set tbl" "rowKey ex = sid" by auto
    show ?thesis
    proof (cases "partitionKey ex = isoDatePart t")
      case True
      have "fst (importRecord hostParse genId i rcd (tbl, results))
          = map (\<lambda>x. if hasKey (isoDatePart t) sid x then entity else x) tbl"
        using replace [OF ex True] by simp
      then show ?thesis
        using dist replaced_rows [OF rk_entity, of "isoDatePart t" tbl] by (simp only:)
    next
      case False
      have "sid \<notin> rowKey ` set (filter (\<lambda>x. \<not> hasKey (partitionKey ex) (rowKey ex) x) tbl)"
        using uniq [OF ex] ex(2) by (auto simp: hasKey_def)
      moreover have "distinct (map rowKey (filter (\<lambda>x. \<not> hasKey (partitionKey ex) (rowKey ex) x) tbl))"
        using dist by (rule distinct_map_filter)
      ultimately show ?thesis
        using move [OF ex False] rk_entity by simp
    qed
  qed
  have older: "importScheduleRecord hostParse genId i rcd (tbl, results)
        = importRecord hostParse genId i rcd (tbl, results)"
  proof (cases "findByRowKey sid tbl")
    case None
    then show ?thesis
      using importRecord_create(2) [OF assms(3)] by (simp add: sid_def)
  next
    case (Some ex)
    then show ?thesis
      using importRecord_move(2) [OF assms(3), of genId tbl ex] importRecord_replace(2) [OF assms(3)]
        single
      by (cases "partitionKey ex = isoDatePart t") (simp_all add: sid_def)
  qed
  have rows: "importRow hostParse genId headers i row state
        = importRecord hostParse genId i (rowRecord headers row) state"
    "importSchedule_row hostParse genId headers i row state
        = importScheduleRecord hostParse genId i (rowRecord_v1 headers row) state"
    by (simp_all add: importRow_def importSchedule_row_def)
  from move moved_gone replace create one keep older rows show ?thesis by blast
qed

theorem import_upsert_witness:
  "importRow (\<lambda>s. None) ''gen'' [''sessionid'', ''videoid'', ''title'', ''starttime'', ''duration''] 1
     ''s1,v1,Talk,2026-03-15T14:00:00Z,30''
     ([\<lparr>partitionKey = ''2026-03-10'', rowKey = ''s2'', videoId = JStr ''v2'', title = JStr ''First'',
        description = JStr [], url = JStr ''u2'', startTime = JStr ''2026-03-10T09:00:00Z'',
        duration = JNum 20\<rparr>,
       \<lparr>partitionKey = ''2026-03-11'', rowKey = ''s2'', videoId = JStr ''v2'', title = JStr ''Again'',
        description = JStr [], url = JStr ''u2'', startTime = JStr ''2026-03-11T09:00:00Z'',
        duration = JNum 20\<rparr>,
       \<lparr>partitionKey = ''2026-03-14'', rowKey = ''s1'', videoId = JStr ''v0'', title = JStr ''Old'',
        description = JStr ''d'', url = JStr ''u'', startTime = JStr ''2026-03-14T09:00:00Z'',
        duration = JNum 60\<rparr>],
      \<lparr>created = 0, updated = 0, errors = []\<rparr>)
   = ([\<lparr>partitionKey = ''2026-03-10'', rowKey = ''s2'', videoId = JStr ''v2'', title = JStr ''First'',
        description = JStr [], url = JStr ''u2'', startTime = JStr ''2026-03-10T09:00:00Z'',
        duration = JNum 20\<rparr>,
       \<lparr>partitionKey = ''2026-03-11'', rowKey = ''s2'', videoId = JStr ''v2'', title = JStr ''Again'',
        description = JStr [], url = JStr ''u2'', startTime = JStr ''2026-03-11T09:00:00Z'',
        duration = JNum 20\<rparr>,
       \<lparr>partitionKey = ''2026-03-15'', rowKey = ''s1'', videoId = JStr ''v1'', title = JStr ''Talk'',
        description = JStr [], url = JStr ''https://www.youtube.com/watch?v=v1'',
        startTime = JStr ''2026-03-15T14:00:00Z'', duration = JNum 30\<rparr>],
      \<lparr>created = 0, updated = 1, errors = []\<rparr>)"
proof -
  let ?hdrs = "[''sessionid'', ''videoid'', ''title'', ''starttime'', ''duration'']"
  let ?row = "''s1,v1,Talk,2026-03-15T14:00:00Z,30''"
  let ?e0 = "\<lparr>partitionKey = ''2026-03-14'', rowKey = ''s1'', videoId = JStr ''v0'', title = JStr ''Old'',
        description = JStr ''d'', url = JStr ''u'', startTime = JStr ''2026-03-14T09:00:00Z'',
        duration = JNum 60\<rparr>"
  let ?a = "\<lparr>partitionKey = ''2026-03-10'', rowKey = ''s2'', videoId = JStr ''v2'', title = JStr ''First'',
        description = JStr [], url = JStr ''u2'', startTime = JStr ''2026-03-10T09:00:00Z'',
        duration = JNum 20\<rparr>"
  let ?b = "\<lparr>partitionKey = ''2026-03-11'', rowKey = ''s2'', videoId = JStr ''v2'', title = JStr ''Again'',
        description = JStr [], url = JStr ''u2'', startTime = JStr ''2026-03-11T09:00:00Z'',
        duration = JNum 20\<rparr>"
  let ?r0 = "\<lparr>created = 0, updated = 0, errors = []\<rparr>"
  let ?rec = "rowRecord ?hdrs ?row"
  let ?sid = "rowSessionId ''gen'' ?rec"
  have valid: "rowStartDate (\<lambda>s. None) ?rec = Some 1773583200000"
    by code_simp
  have single: "length (filter (\<lambda>x. rowKey x = ?sid) [?a, ?b, ?e0]) \<le> 1"
    by code_simp
  have stored: "?e0 \<in> set [?a, ?b, ?e0] \<and> rowKey ?e0 = ?sid
      \<and> partitionKey ?e0 \<noteq> isoDatePart 1773583200000"
    by code_simp
  have result: "(filter (\<lambda>x. \<not> hasKey (partitionKey ?e0) (rowKey ?e0) x) [?a, ?b, ?e0]
         @ [rowEntity (isoDatePart 1773583200000) ?sid ?rec],
       ?r0\<lparr>updated := updated ?r0 + 1\<rparr>)
     = ([?a, ?b,
        \<lparr>partitionKey = ''2026-03-15'', rowKey = ''s1'', videoId = JStr ''v1'', title = JStr ''Talk'',
        description = JStr [], url = JStr ''https://www.youtube.com/watch?v=v1'',
        startTime = JStr ''2026-03-15T14:00:00Z'', duration = JNum 30\<rparr>],
      \<lparr>created = 0, updated = 1, errors = []\<rparr>)"
    by code_simp
  note upsert = import_upsert [OF valid single, where i = 1 and results = ?r0
      and headers = ?hdrs and row = ?row and state = "([?a, ?b, ?e0], ?r0)"]
  from upsert have "importRow (\<lambda>s. None) ''gen'' ?hdrs 1 ?row ([?a, ?b, ?e0], ?r0)
      = importRecord (\<lambda>s. None) ''gen'' 1 ?rec ([?a, ?b, ?e0], ?r0)"
    by blast
  also from upsert stored
  have "importRecord (\<lambda>s. None) ''gen'' 1 ?rec ([?a, ?b, ?e0], ?r0)
     = (filter (\<lambda>x. \<not> hasKey (partitionKey ?e0) (rowKey ?e0) x) [?a, ?b, ?e0]
         @ [rowEntity (isoDatePart 1773583200000) ?sid ?rec],
       ?r0\<lparr>updated := updated ?r0 + 1\<rparr>)"
    by blast
  also note result
  finally show ?thesis .
qed

text \<open>
  C5 as stated fails on a table that holds the row's session id under two partitions,
  which the store allows, its key being the pair of partition key and row key. The
  import row \<open>s1\<close> is dated 15 March; the first stored row \<open>s1\<close> lies under 14 March, a
  different partition key, and is deleted; creating the row's entity then collides with
  the other stored row \<open>s1\<close> under 15 March. No row is created, the row is counted
  neither as updated nor as created but as an error, and the table is left with the old
  row of 15 March alone. The loop body of the older import module ends the same way.
\<close>

theorem import_upsert_counterexample:
  "fst (importRow (\<lambda>s. None) ''gen'' [''sessionid'', ''videoid'', ''title'', ''starttime'', ''duration''] 1
     ''s1,v1,Talk,2026-03-15T14:00:00Z,30''
     ([\<lparr>partitionKey = ''2026-03-14'', rowKey = ''s1'', videoId = JStr ''v0'', title = JStr ''Old'',
        description = JStr ''d'', url = JStr ''u'', startTime = JStr ''2026-03-14T09:00:00Z'',
        duration = JNum 60\<rparr>,
       \<lparr>partitionKey = ''2026-03-15'', rowKey = ''s1'', videoId = JStr ''v0'', title = JStr ''Other'',
        description = JStr ''d'', url = JStr ''u'', startTime = JStr ''2026-03-15T09:00:00Z'',
        duration = JNum 60\<rparr>],
      \<lparr>created = 0, updated = 0, errors = []\<rparr>))
   = [\<lparr>partitionKey = ''2026-03-15'', rowKey = ''s1'', videoId = JStr ''v0'', title = JStr ''Other'',
        description = JStr ''d'', url = JStr ''u'', startTime = JStr ''2026-03-15T09:00:00Z'',
        duration = JNum 60\<rparr>]
   \<and> (let results = snd (importRow (\<lambda>s. None) ''gen''
          [''sessionid'', ''videoid'', ''title'', ''starttime'', ''duration''] 1
          ''s1,v1,Talk,2026-03-15T14:00:00Z,30''
          ([\<lparr>partitionKey = ''2026-03-14'', rowKey = ''s1'', videoId = JStr ''v0'', title = JStr ''Old'',
             description = JStr ''d'', url = JStr ''u'', startTime = JStr ''2026-03-14T09:00:00Z'',
             duration = JNum 60\<rparr>,
            \<lparr>partitionKey = ''2026-03-15'', rowKey = ''s1'', videoId = JStr ''v0'', title = JStr ''Other'',
             description = JStr ''d'', url = JStr ''u'', startTime = JStr ''2026-03-15T09:00:00Z'',
             duration = JNum 60\<rparr>],
           \<lparr>created = 0, updated = 0, errors = []\<rparr>))
      in created results = 0 \<and> updated results = 0 \<and> length (errors results) = 1)
   \<and> importSchedule_row (\<lambda>s. None) ''gen'' [''sessionid'', ''videoid'', ''title'', ''starttime'', ''duration''] 1
       ''s1,v1,Talk,2026-03-15T14:00:00Z,30''
       ([\<lparr>partitionKey = ''2026-03-14'', rowKey = ''s1'', videoId = JStr ''v0'', title = JStr ''Old'',
          description = JStr ''d'', url = JStr ''u'', startTime = JStr ''2026-03-14T09:00:00Z'',
          duration = JNum 60\<rparr>,
         \<lparr>partitionKey = ''2026-03-15'', rowKey = ''s1'', videoId = JStr ''v0'', title = JStr ''Other'',
          description = JStr ''d'', url = JStr ''u'', startTime = JStr ''2026-03-15T09:00:00Z'',
          duration = JNum 60\<rparr>],
        \<lparr>created = 0, updated = 0, errors = []\<rparr>)
     = importRow (\<lambda>s. None) ''gen'' [''sessionid'', ''videoid'', ''title'', ''starttime'', ''duration''] 1
       ''s1,v1,Talk,2026-03-15T14:00:00Z,30''
       ([\<lparr>partitionKey = ''2026-03-14'', rowKey = ''s1'', videoId = JStr ''v0'', title = JStr ''Old'',
          description = JStr ''d'', url = JStr ''u'', startTime = JStr ''2026-03-14T09:00:00Z'',
          duration = JNum 60\<rparr>,
         \<lparr>partitionKey = ''2026-03-15'', rowKey = ''s1'', videoId = JStr ''v0'', title = JStr ''Other'',
          description = JStr ''d'', url = JStr ''u'', startTime = JStr ''2026-03-15T09:00:00Z'',
          duration = JNum 60\<rparr>],
        \<lparr>created = 0, updated = 0, errors = []\<rparr>)"
  by code_simp

text \<open>
  C10. Every row \<open>parseCsv\<close> returns holds a character that is not white space. A line of
  white space only (the empty line among them) that ends at a line feed, at a carriage
  return with or without a line feed, or at the end of the content adds no row. An import
  that passes the header check handles exactly the data rows \<open>parseCsv\<close> returned, each once,
  so a dropped line gives neither a record nor an error. The same \<open>parseCsv\<close> stands in both
  import modules.
\<close>

theorem parseCsv_drops_blank_lines:
  "(\<forall>r\<in>set (parseCsv content). \<exists>c\<in>set r. \<not> isJsSpace c)
   \<and> (list_all isJsSpace w \<longrightarrow>
        parseCsv_loop (LF # rest) rows w False = parseCsv_loop rest rows [] False
        \<and> parseCsv_loop (CR # LF # rest) rows w False = parseCsv_loop rest rows [] False
        \<and> (\<not> startsWith rest [LF] \<longrightarrow>
             parseCsv_loop (CR # rest) rows w False = parseCsv_loop rest rows [] False)
        \<and> parseCsv_loop [] rows w inQuotes = rows)
   \<and> (parseCsv body = headerLine # dataRow # moreRows
        \<and> (\<forall>col\<in>set requiredColumns.
              col \<in> set (map (\<lambda>h. toLowerCase (trim h)) (parseCsvLine headerLine)))
      \<longrightarrow> (\<exists>c u es tbl'. importScheduleFromCsv hostParse genIds body tbl =
              (\<lparr>status = 200, jsonBody = ImportBody ''Import completed'' c u es\<rparr>, tbl')
            \<and> c + u + length es = length (dataRow # moreRows))
          \<and> (\<forall>r\<in>set (dataRow # moreRows). \<exists>c\<in>set r. \<not> isJsSpace c))"
proof (intro conjI impI)
  show nonblank: "\<forall>r\<in>set (parseCsv content). \<exists>c\<in>set r. \<not> isJsSpace c" for content
    unfolding parseCsv_def by (rule parseCsv_loop_nonblank) simp
  {
    assume w: "list_all isJsSpace w"
    show "parseCsv_loop (LF # rest) rows w False = parseCsv_loop rest rows [] False"
      using pushRow_blank [OF w] by simp
    show "parseCsv_loop (CR # LF # rest) rows w False = parseCsv_loop rest rows [] False"
      using pushRow_blank [OF w] by simp
    show "parseCsv_loop [] rows w inQuotes = rows"
      using pushRow_blank [OF w] by simp
    assume "\<not> startsWith rest [LF]"
    then show "parseCsv_loop (CR # rest) rows w False = parseCsv_loop rest rows [] False"
      using pushRow_blank [OF w] by simp
  }
  assume a: "parseCsv body = headerLine # dataRow # moreRows
        \<and> (\<forall>col\<in>set requiredColumns.
              col \<in> set (map (\<lambda>h. toLowerCase (trim h)) (parseCsvLine headerLine)))"
  let ?final = "importRows hostParse genIds (map (\<lambda>h. toLowerCase (trim h)) (parseCsvLine headerLine))
                    1 (dataRow # moreRows) (tbl, \<lparr>created = 0, updated = 0, errors = []\<rparr>)"
  have "importScheduleFromCsv hostParse genIds body tbl =
      (\<lparr>status = 200,
        jsonBody = ImportBody ''Import completed'' (created (snd ?final)) (updated (snd ?final))
                     (errors (snd ?final))\<rparr>, fst ?final)"
    using import_validated [of body headerLine dataRow moreRows hostParse genIds tbl] a
    by (simp add: Let_def)
  moreover have "created (snd ?final) + updated (snd ?final) + length (errors (snd ?final))
      = length (dataRow # moreRows)"
    using importRows_accounts
      [of hostParse genIds "map (\<lambda>h. toLowerCase (trim h)) (parseCsvLine headerLine)" 1
        "dataRow # moreRows" "(tbl, \<lparr>created = 0, updated = 0, errors = []\<rparr>)"]
    by simp
  ultimately show "\<exists>c u es tbl'. importScheduleFromCsv hostParse genIds body tbl =
              (\<lparr>status = 200, jsonBody = ImportBody ''Import completed'' c u es\<rparr>, tbl')
            \<and> c + u + length es = length (dataRow # moreRows)"
    by blast
  show "\<forall>r\<in>set (dataRow # moreRows). \<exists>c\<in>set r. \<not> isJsSpace c"
    using nonblank [of body] a by simp
qed

theorem parseCsv_drops_blank_lines_witness:
  "parseCsv (''a,b'' @ [LF, LF] @ ''  '' @ [CR, LF] @ ''c,d'' @ [LF]) = [''a,b'', ''c,d'']
   \<and> (\<exists>c\<in>set ''a,b''. \<not> isJsSpace c) \<and> (\<exists>c\<in>set ''c,d''. \<not> isJsSpace c)"
proof -
  have rows: "parseCsv (''a,b'' @ [LF, LF] @ ''  '' @ [CR, LF] @ ''c,d'' @ [LF]) = [''a,b'', ''c,d'']"
    by code_simp
  from parseCsv_drops_blank_lines [where content = "''a,b'' @ [LF, LF] @ ''  '' @ [CR, LF] @ ''c,d'' @ [LF]"]
  have "\<forall>r\<in>set (parseCsv (''a,b'' @ [LF, LF] @ ''  '' @ [CR, LF] @ ''c,d'' @ [LF])). \<exists>c\<in>set r. \<not> isJsSpace c"
    by blast
  with rows show ?thesis by simp
qed

section \<open>Speaker extraction\<close>

lemma foldl_setAdd_set: "set (foldl setAdd acc xs) = set acc \<union> set xs"
  by (induction xs arbitrary: acc) (auto simp: setAdd_def)

lemma foldl_setAdd_distinct: "distinct acc \<Longrightarrow> distinct (foldl setAdd acc xs)"
  by (induction xs arbitrary: acc) (auto simp: setAdd_def)

lemma find_replaced:
  "list_ex (hasKey pk rk) tbl \<Longrightarrow> hasKey pk rk w \<Longrightarrow>
   find (hasKey pk rk) (map (\<lambda>x. if hasKey pk rk x then w else x) tbl) = Some w"
  by (induction tbl) auto

text \<open>
  C9. When the extracted name matches an existing speaker and the write succeeds, the
  entity stored under that speaker's key is the existing one with its session ids
  replaced by the merged list; the merged list has no duplicate and holds exactly the
  ids stored before together with the newly extracted ones.
\<close>

theorem extract_merge_deduplicates:
  fixes existing :: speaker
  defines "old \<equiv> (case sessionIds existing of None \<Rightarrow> [] | Some xs \<Rightarrow> xs)"
  assumes "existingSpeakers lowerName = Some existing"
    and "extractStep existingSpeakers speakerSessions generateSpeakerId (lowerName, displayName)
           (tbl, results) = Inr (tbl', results')"
    and "new = (case speakerSessions lowerName of None \<Rightarrow> [] | Some xs \<Rightarrow> xs)"
  shows "find (hasKey (partitionKey existing) (rowKey existing)) tbl'
           = Some (existing\<lparr>sessionIds := Some (mergedSessionIds existing new)\<rparr>)
    \<and> distinct (mergedSessionIds existing new)
    \<and> set (mergedSessionIds existing new) = set old \<union> set new
    \<and> updatedCount results' = updatedCount results + 1"
proof -
  let ?w = "existing\<lparr>sessionIds := Some (mergedSessionIds existing new)\<rparr>"
  from assms(2,3,4) have upd: "updateEntity ?w tbl = Inr tbl'"
    and cnt: "updatedCount results' = updatedCount results + 1"
    by (auto simp: extractStep_def Let_def split: sum.splits)
  from upd have ex: "list_ex (hasKey (partitionKey existing) (rowKey existing)) tbl"
    and tbl': "tbl' = map (\<lambda>x. if hasKey (partitionKey existing) (rowKey existing) x then ?w else x) tbl"
    by (auto simp: updateEntity_def split: if_splits)
  have "find (hasKey (partitionKey existing) (rowKey existing)) tbl' = Some ?w"
    unfolding tbl' by (rule find_replaced [OF ex]) (simp add: hasKey_def)
  moreover have "distinct (mergedSessionIds existing new)"
    by (simp add: mergedSessionIds_def newSet_def foldl_setAdd_distinct)
  moreover have "set (mergedSessionIds existing new) = set old \<union> set new"
    by (simp add: mergedSessionIds_def newSet_def foldl_setAdd_set old_def)
  ultimately show ?thesis using cnt by simp
qed

theorem extract_merge_deduplicates_witness:
  "find (hasKey ''speaker'' ''jane-doe-ab12'')
     [\<lparr>partitionKey = ''speaker'', rowKey = ''jane-doe-ab12'', name = ''Jane Doe'',
       profile = Map.empty, sessionIds = Some [''s1'', ''s2'', ''s3'']\<rparr>]
   = Some \<lparr>partitionKey = ''speaker'', rowKey = ''jane-doe-ab12'', name = ''Jane Doe'',
       profile = Map.empty, sessionIds = Some [''s1'', ''s2'', ''s3'']\<rparr>
   \<and> distinct [''s1'', ''s2'', ''s3'']
   \<and> set [''s1'', ''s2'', ''s3''] = set [''s1'', ''s2''] \<union> set [''s2'', ''s3'', ''s3'']"
proof -
  let ?e0 = "\<lparr>partitionKey = ''speaker'', rowKey = ''jane-doe-ab12'', name = ''Jane Doe'',
       profile = Map.empty, sessionIds = Some [''s1'', ''s2'']\<rparr>"
  let ?sessions = "[''jane doe'' \<mapsto> [''s2'', ''s3'', ''s3'']]"
  let ?r0 = "\<lparr>createdCount = 0, updatedCount = 0, speakers = []\<rparr>"
  have merged: "mergedSessionIds ?e0 [''s2'', ''s3'', ''s3''] = [''s1'', ''s2'', ''s3'']"
    by (simp add: mergedSessionIds_def newSet_def setAdd_def)
  have lower: "toLowerCase ''Jane Doe'' = ''jane doe''"
    by code_simp
  have known: "existingSpeakersOf [?e0] ''jane doe'' = Some ?e0"
    by (simp add: existingSpeakersOf_def lower)
  have step: "extractStep (existingSpeakersOf [?e0]) ?sessions (\<lambda>n. ''new-id'') (''jane doe'', ''Jane Doe'')
      ([?e0], ?r0)
    = Inr ([?e0\<lparr>sessionIds := Some [''s1'', ''s2'', ''s3'']\<rparr>],
           ?r0\<lparr>updatedCount := 1, speakers := [(''Jane Doe'', ActionUpdated, 3)]\<rparr>)"
    unfolding extractStep_def Let_def fst_conv snd_conv known
    by (simp add: merged updateEntity_def hasKey_def)
  from extract_merge_deduplicates [OF known step, of "[''s2'', ''s3'', ''s3'']"]
  show ?thesis by (simp add: merged)
qed

section \<open>Dates and partition keys\<close>

text \<open>
  The calendar conversion is inverted by its counterpart on every date of the calendar,
  and the digits the parser reads are the digits \<open>toISOString\<close> writes. Together they
  give the date part of the rendering of a start time written in UTC.
\<close>

lemma yoe_split:
  fixes yoe :: int
  assumes "0 \<le> yoe" "yoe < 400"
  obtains c q r where "yoe = 100 * c + 4 * q + r" "0 \<le> c" "c \<le> 3" "0 \<le> q" "q \<le> 24" "0 \<le> r" "r \<le> 3"
proof -
  define c where "c = yoe div 100"
  define s where "s = yoe mod 100"
  define q where "q = s div 4"
  define r where "r = s mod 4"
  have y: "yoe = 100 * c + s" by (simp add: c_def s_def)
  have s: "s = 4 * q + r" by (simp add: q_def r_def)
  have sb: "0 \<le> s" "s < 100" by (simp_all add: s_def)
  have rb: "0 \<le> r" "r < 4" by (simp_all add: r_def)
  from y sb assms have cb: "0 \<le> c" "c \<le> 3" by linarith+
  from s sb rb have qb: "0 \<le> q" "q \<le> 24" by linarith+
  from y s have "yoe = 100 * c + 4 * q + r" by simp
  with cb qb rb show thesis using that by auto
qed

lemma mod_zero_top:
  fixes n b :: int
  assumes "0 < n" "n \<le> b"
  shows "(n mod b = 0) = (n = b)"
proof (cases "n < b")
  case True
  with assms have "n mod b = n" by simp
  with assms True show ?thesis by simp
next
  case False
  with assms have "n = b" by simp
  then show ?thesis by simp
qed

lemma leap_split:
  fixes c q r era :: int
  assumes "0 \<le> c" "c \<le> 3" "0 \<le> q" "q \<le> 24" "0 \<le> r" "r \<le> 3"
  shows "isLeapYear (era * 400 + (100 * c + 4 * q + r) + 1) = (r = 3 \<and> (q \<noteq> 24 \<or> c = 3))"
proof -
  let ?n = "era * 400 + (100 * c + 4 * q + r) + 1"
  have m4: "?n mod 4 = (r + 1) mod 4"
  proof -
    have "?n = (r + 1) + 4 * (era * 100 + 25 * c + q)" by simp
    then show ?thesis by (metis mod_mult_self2)
  qed
  have m100: "?n mod 100 = (4 * q + r + 1) mod 100"
  proof -
    have "?n = (4 * q + r + 1) + 100 * (era * 4 + c)" by simp
    then show ?thesis by (metis mod_mult_self2)
  qed
  have m400: "?n mod 400 = (100 * c + 4 * q + r + 1) mod 400"
  proof -
    have "?n = (100 * c + 4 * q + r + 1) + 400 * era" by simp
    then show ?thesis by (metis mod_mult_self2)
  qed
  have e4: "(r + 1 = 4) = (r = 3)"
    by (intro iffI; linarith)
  have e100: "(4 * q + r + 1 = 100) = (q = 24 \<and> r = 3)"
    using assms by (intro iffI conjI; linarith)
  have e400: "(100 * c + 4 * q + r + 1 = 400) = (c = 3 \<and> q = 24 \<and> r = 3)"
    using assms by (intro iffI conjI; linarith)
  have r4: "((r + 1) mod 4 = 0) = (r = 3)"
    using mod_zero_top [of "r + 1" 4] assms e4 by simp
  have q100: "((4 * q + r + 1) mod 100 = 0) = (q = 24 \<and> r = 3)"
    using mod_zero_top [of "4 * q + r + 1" 100] assms e100 by simp
  have c400: "((100 * c + 4 * q + r + 1) mod 400 = 0) = (c = 3 \<and> q = 24 \<and> r = 3)"
    using mod_zero_top [of "100 * c + 4 * q + r + 1" 400] assms e400 by simp
  show ?thesis
    unfolding isLeapYear_def m4 m100 m400 r4 q100 c400 by auto
qed


lemma div_eqI:
  fixes a b q :: int
  assumes "b * q \<le> a" "a < b * q + b"
  shows "a div b = q"
  by (rule int_div_pos_eq [where r = "a - b * q"]) (use assms in auto)

lemma year_part:
  fixes era c q r doy :: int
  assumes "0 \<le> c" "c \<le> 3" "0 \<le> q" "q \<le> 24" "0 \<le> r" "r \<le> 3" "0 \<le> doy"
    and "doy \<le> 364 \<or> (doy = 365 \<and> r = 3 \<and> (q \<noteq> 24 \<or> c = 3))"
  defines "doe \<equiv> 36524 * c + 1461 * q + 365 * r + doy"
  shows "(era * 146097 + doe) div 146097 = era"
    and "min 3 (doe div 36524) = c"
    and "min 24 ((doe - c * 36524) div 1461) = q"
    and "min 3 ((doe - c * 36524 - q * 1461) div 365) = r"
proof -
  have doy: "doy \<le> 365" using assms(8) by linarith
  show "(era * 146097 + doe) div 146097 = era"
    by (rule div_eqI) (use assms(1-7) doy in \<open>simp_all add: doe_def\<close>)
  show "min 3 (doe div 36524) = c"
  proof (cases "1461 * q + 365 * r + doy < 36524")
    case True
    have "doe div 36524 = c"
      by (rule div_eqI) (use assms(1-7) True in \<open>simp_all add: doe_def\<close>)
    with assms(2) show ?thesis by simp
  next
    case False
    with assms(1-7) doy have top: "q = 24" "r = 3" "doy = 365" by linarith+
    with assms(8) have "c = 3" by simp
    with top have "doe = 36524 * 4" by (simp add: doe_def)
    then have "doe div 36524 = 4" by simp
    with \<open>c = 3\<close> show ?thesis by simp
  qed
  show "min 24 ((doe - c * 36524) div 1461) = q"
  proof -
    have "(doe - c * 36524) div 1461 = q"
      by (rule div_eqI) (use assms(1-7) doy assms(8) in \<open>auto simp: doe_def\<close>)
    with assms(4) show ?thesis by simp
  qed
  show "min 3 ((doe - c * 36524 - q * 1461) div 365) = r"
  proof (cases "doy \<le> 364")
    case True
    have "(doe - c * 36524 - q * 1461) div 365 = r"
      by (rule div_eqI) (use assms(1-7) True in \<open>simp_all add: doe_def\<close>)
    with assms(6) show ?thesis by simp
  next
    case False
    with assms(8) have top: "doy = 365" "r = 3" by simp_all
    then have "doe - c * 36524 - q * 1461 = 365 * 4" by (simp add: doe_def)
    then have "(doe - c * 36524 - q * 1461) div 365 = 4" by simp
    with top show ?thesis by simp
  qed
qed

lemma month_part:
  fixes y m d :: int
  assumes "1 \<le> m" "m \<le> 12" "1 \<le> d" "d \<le> daysInMonth y m"
  defines "mp \<equiv> (if m > 2 then m - 3 else m + 9)"
  defines "doy \<equiv> (153 * mp + 2) div 5 + d - 1"
  shows "0 \<le> doy"
    and "doy \<le> 364 \<or> (doy = 365 \<and> m = 2 \<and> isLeapYear y)"
    and "(5 * doy + 2) div 153 = mp"
    and "doy - (153 * mp + 2) div 5 + 1 = d"
    and "(if mp < 10 then mp + 3 else mp - 9) = m"
proof -
  from assms(1,2) have "m = 1 \<or> m = 2 \<or> m = 3 \<or> m = 4 \<or> m = 5 \<or> m = 6 \<or> m = 7 \<or> m = 8
      \<or> m = 9 \<or> m = 10 \<or> m = 11 \<or> m = 12"
    by arith
  then have all: "0 \<le> doy \<and> (doy \<le> 364 \<or> (doy = 365 \<and> m = 2 \<and> isLeapYear y))
      \<and> (5 * doy + 2) div 153 = mp \<and> doy - (153 * mp + 2) div 5 + 1 = d
      \<and> (if mp < 10 then mp + 3 else mp - 9) = m"
  proof (elim disjE)
    assume "m = 1"
    with assms(3,4) show ?thesis
      unfolding doy_def mp_def by (auto simp: daysInMonth_def intro!: div_eqI)
  next
    assume "m = 2"
    with assms(3,4) show ?thesis
      unfolding doy_def mp_def by (auto simp: daysInMonth_def intro!: div_eqI split: if_splits)
  next
    assume "m = 3"
    with assms(3,4) show ?thesis
      unfolding doy_def mp_def by (auto simp: daysInMonth_def intro!: div_eqI)
  next
    assume "m = 4"
    with assms(3,4) show ?thesis
      unfolding doy_def mp_def by (auto simp: daysInMonth_def intro!: div_eqI)
  next
    assume "m = 5"
    with assms(3,4) show ?thesis
      unfolding doy_def mp_def by (auto simp: daysInMonth_def intro!: div_eqI)
  next
    assume "m = 6"
    with assms(3,4) show ?thesis
      unfolding doy_def mp_def by (auto simp: daysInMonth_def intro!: div_eqI)
  next
    assume "m = 7"
    with assms(3,4) show ?thesis
      unfolding doy_def mp_def by (auto simp: daysInMonth_def intro!: div_eqI)
  next
    assume "m = 8"
    with assms(3,4) show ?thesis
      unfolding doy_def mp_def by (auto simp: daysInMonth_def intro!: div_eqI)
  next
    assume "m = 9"
    with assms(3,4) show ?thesis
      unfolding doy_def mp_def by (auto simp: daysInMonth_def intro!: div_eqI)
  next
    assume "m = 10"
    with assms(3,4) show ?thesis
      unfolding doy_def mp_def by (auto simp: daysInMonth_def intro!: div_eqI)
  next
    assume "m = 11"
    with assms(3,4) show ?thesis
      unfolding doy_def mp_def by (auto simp: daysInMonth_def intro!: div_eqI)
  next
    assume "m = 12"
    with assms(3,4) show ?thesis
      unfolding doy_def mp_def by (auto simp: daysInMonth_def intro!: div_eqI)
  qed
  from all show "0 \<le> doy" by simp
  from all show "doy \<le> 364 \<or> (doy = 365 \<and> m = 2 \<and> isLeapYear y)" by simp
  from all show "(5 * doy + 2) div 153 = mp" by simp
  from all show "doy - (153 * mp + 2) div 5 + 1 = d" by simp
  from all show "(if mp < 10 then mp + 3 else mp - 9) = m" by simp
qed

lemma civil_roundtrip:
  fixes y m d :: int
  assumes "1 \<le> m" "m \<le> 12" "1 \<le> d" "d \<le> daysInMonth y m"
  shows "civilFromDays (daysFromCivil y m d) = (y, m, d)"
proof -
  define mp where "mp = (if m > 2 then m - 3 else m + 9)"
  define doy where "doy = (153 * mp + 2) div 5 + d - 1"
  define y' where "y' = (if m \<le> 2 then y - 1 else y)"
  define era where "era = y' div 400"
  define yoe where "yoe = y' - era * 400"
  note mon = month_part [OF assms, folded mp_def, folded doy_def]
  have yoe_mod: "yoe = y' mod 400"
    by (simp add: yoe_def era_def minus_div_mult_eq_mod)
  then have "0 \<le> yoe" "yoe < 400" by simp_all
  then obtain c q r where split: "yoe = 100 * c + 4 * q + r"
    and rng: "0 \<le> c" "c \<le> 3" "0 \<le> q" "q \<le> 24" "0 \<le> r" "r \<le> 3"
    by (rule yoe_split)
  define doe where "doe = 36524 * c + 1461 * q + 365 * r + doy"
  have d4: "yoe div 4 = 25 * c + q"
    by (rule div_eqI) (use rng in \<open>simp_all add: split\<close>)
  have d100: "yoe div 100 = c"
    by (rule div_eqI) (use rng in \<open>simp_all add: split\<close>)
  have dfc: "daysFromCivil y m d = era * 146097 + doe - 719468"
    unfolding daysFromCivil_def Let_def
    unfolding y'_def [symmetric] era_def [symmetric] yoe_def [symmetric] mp_def [symmetric]
    unfolding doy_def [symmetric] d4 d100
    by (simp add: doe_def split)
  have leap: "doy \<le> 364 \<or> (doy = 365 \<and> r = 3 \<and> (q \<noteq> 24 \<or> c = 3))"
  proof (cases "doy \<le> 364")
    case True
    then show ?thesis by simp
  next
    case False
    with mon(2) have top: "doy = 365" "m = 2" "isLeapYear y" by simp_all
    from top(2) have "y = era * 400 + (100 * c + 4 * q + r) + 1"
      using split by (simp add: y'_def yoe_def)
    with top(3) leap_split [OF rng, of era] have "r = 3 \<and> (q \<noteq> 24 \<or> c = 3)" by simp
    with top(1) show ?thesis by simp
  qed
  note yr = year_part [OF rng mon(1) leap, folded doe_def]
  have s0: "era * 146097 + doe - 719468 + 719468 = era * 146097 + doe" by simp
  have s1: "era * 146097 + doe - era * 146097 = doe" by simp
  have s2: "doe - c * 36524 - q * 1461 - r * 365 = doy" by (simp add: doe_def)
  have s3: "c * 100 + q * 4 + r + era * 400 = y'" using split by (simp add: yoe_def)
  have s4: "(if m \<le> 2 then y' + 1 else y') = y" by (simp add: y'_def)
  show ?thesis
    unfolding civilFromDays_def Let_def dfc s0 yr(1) s1 yr(2) yr(3) yr(4) s2 mon(3) mon(4) mon(5) s3 s4
    by (rule refl)
qed

lemma digitChar_digitVal: "isDigit c \<Longrightarrow> digitChar (nat (digitVal c)) = c"
proof -
  assume "isDigit c"
  then have "48 + nat (digitVal c) = of_char c"
    unfolding isDigit_def digitVal_def by linarith
  then show ?thesis by (simp add: digitChar_def)
qed

lemma digitVal_range: "isDigit c \<Longrightarrow> 0 \<le> digitVal c \<and> digitVal c \<le> 9"
  by (simp add: isDigit_def digitVal_def)

lemma digits_value_range:
  "list_all isDigit s \<Longrightarrow>
   0 \<le> foldl (\<lambda>a c. a * 10 + digitVal c) 0 s \<and> foldl (\<lambda>a c. a * 10 + digitVal c) 0 s < 10 ^ length s"
proof (induction s rule: rev_induct)
  case Nil
  then show ?case by simp
next
  case (snoc c s)
  then have "0 \<le> foldl (\<lambda>a c. a * 10 + digitVal c) 0 s"
    and "foldl (\<lambda>a c. a * 10 + digitVal c) 0 s + 1 \<le> 10 ^ length s"
    and "0 \<le> digitVal c" and "digitVal c \<le> 9"
    using digitVal_range [of c] by simp_all
  then show ?case
    by (simp add: algebra_simps)
qed

lemma natDigits_step:
  assumes "0 < v" "0 \<le> dv" "dv \<le> 9"
  shows "natDigits (nat (v * 10 + dv)) = natDigits (nat v) @ [digitChar (nat dv)]"
proof -
  have big: "\<not> nat (v * 10 + dv) < 10" using assms by linarith
  have q: "nat (v * 10 + dv) div 10 = nat v"
  proof -
    have "(v * 10 + dv) div 10 = v"
      by (rule div_eqI) (use assms in simp_all)
    then show ?thesis using assms
      by (metis nat_div_distrib nat_numeral add_nonneg_nonneg mult_nonneg_nonneg
          less_imp_le zero_le_numeral)
  qed
  have r: "nat (v * 10 + dv) mod 10 = nat dv"
  proof -
    have "(v * 10 + dv) mod 10 = dv" using assms by simp
    then show ?thesis using assms
      by (metis nat_mod_distrib nat_numeral add_nonneg_nonneg mult_nonneg_nonneg
          less_imp_le zero_le_numeral)
  qed
  show ?thesis
    by (subst natDigits.simps) (simp only: big q r if_False)
qed

lemma natDigits_small:
  assumes "0 \<le> dv" "dv \<le> 9"
  shows "natDigits (nat dv) = [digitChar (nat dv)]"
proof -
  have "nat dv < 10" using assms by linarith
  then show ?thesis by (subst natDigits.simps) simp
qed

lemma pad0_digits:
  "list_all isDigit s \<Longrightarrow> s \<noteq> [] \<Longrightarrow>
   pad0 (length s) (foldl (\<lambda>a c. a * 10 + digitVal c) 0 s) = s"
proof (induction s rule: rev_induct)
  case Nil
  then show ?case by simp
next
  case (snoc c s)
  let ?v = "foldl (\<lambda>a c. a * 10 + digitVal c) 0 s"
  from snoc.prems have ds: "list_all isDigit s" and dc: "isDigit c" by simp_all
  from dc have rng: "0 \<le> digitVal c" "digitVal c \<le> 9" using digitVal_range by simp_all
  have v0: "0 \<le> ?v" using digits_value_range [OF ds] by simp
  show ?case
  proof (cases "s = []")
    case True
    then show ?thesis
      using natDigits_small [OF rng] digitChar_digitVal [OF dc] by (simp add: pad0_def Let_def)
  next
    case False
    with snoc.IH ds have ih: "pad0 (length s) ?v = s" by simp
    show ?thesis
    proof (cases "?v = 0")
      case True
      have z: "natDigits (nat 0) = [digitChar 0]" by (subst natDigits.simps) simp
      from ih True z have "s = replicate (length s - 1) (CHR ''0'') @ [digitChar 0]"
        by (simp add: pad0_def Let_def)
      moreover have "digitChar 0 = CHR ''0''" by code_simp
      ultimately have s: "s = replicate (length s) (CHR ''0'')"
        using False
        by (metis One_nat_def Suc_pred length_greater_0_conv replicate_Suc replicate_append_same)
      have "pad0 (length (s @ [c])) (foldl (\<lambda>a c. a * 10 + digitVal c) 0 (s @ [c]))
          = replicate (length s) (CHR ''0'') @ [c]"
        using True natDigits_small [OF rng] digitChar_digitVal [OF dc] by (simp add: pad0_def Let_def)
      with s show ?thesis by simp
    next
      case False
      with v0 have pos: "0 < ?v" by simp
      have "pad0 (length (s @ [c])) (foldl (\<lambda>a c. a * 10 + digitVal c) 0 (s @ [c]))
          = pad0 (length s) ?v @ [c]"
        using natDigits_step [OF pos rng] digitChar_digitVal [OF dc] by (simp add: pad0_def Let_def)
      with ih show ?thesis by simp
    qed
  qed
qed

lemma digitsN_Some:
  assumes "digitsN n x = Some v"
  shows "length x = n" and "list_all isDigit x" and "v = foldl (\<lambda>a c. a * 10 + digitVal c) 0 x"
  using assms by (auto simp: digitsN_def split: if_splits)

lemma digitsN_pad:
  assumes "digitsN n x = Some v" and "0 < n"
  shows "pad0 n v = x" and "0 \<le> v" and "v < 10 ^ n"
proof -
  note f = digitsN_Some [OF assms(1)]
  from f(1) assms(2) have "x \<noteq> []" by auto
  with pad0_digits [OF f(2)] f(1,3) show "pad0 n v = x" by simp
  from digits_value_range [OF f(2)] f(1,3) show "0 \<le> v" and "v < 10 ^ n" by simp_all
qed

lemma isDigit_not_T: "isDigit c \<Longrightarrow> c \<noteq> CHR ''T'' \<and> c \<noteq> CHR ''Z''"
  by (auto simp: isDigit_def)

lemma parseIsoDate_text:
  assumes "parseIsoDate s = Some (y, m, d)"
  shows "s = isoYear y @ ''-'' @ pad0 2 m @ ''-'' @ pad0 2 d"
    and "1 \<le> m" and "m \<le> 12" and "1 \<le> d" and "d \<le> 31"
    and "CHR ''T'' \<notin> set s"
proof -
  from assms have py: "digitsN 4 (take 4 s) = Some y"
    and pm: "digitsN 2 (take 2 (drop 5 s)) = Some m"
    and pd: "digitsN 2 (take 2 (drop 8 s)) = Some d"
    and len: "length s = 10" and dash: "s ! 4 = CHR ''-''" "s ! 7 = CHR ''-''"
    and rng: "1 \<le> m" "m \<le> 12" "1 \<le> d" "d \<le> 31"
    by (auto simp: parseIsoDate_def split: option.splits if_splits)
  from rng show "1 \<le> m" and "m \<le> 12" and "1 \<le> d" and "d \<le> 31" .
  note fy = digitsN_pad [OF py] and fm = digitsN_pad [OF pm] and fd = digitsN_pad [OF pd]
  from fy have yr: "isoYear y = take 4 s" by (simp add: isoYear_def)
  have parts: "s = take 4 s @ [s ! 4] @ take 2 (drop 5 s) @ [s ! 7] @ take 2 (drop 8 s)"
  proof -
    from len obtain a0 a1 a2 a3 a4 a5 a6 a7 a8 a9 where "s = [a0, a1, a2, a3, a4, a5, a6, a7, a8, a9]"
      by (auto simp: numeral_eq_Suc length_Suc_conv)
    then show ?thesis by simp
  qed
  from parts yr fm(1) fd(1) dash
  show "s = isoYear y @ ''-'' @ pad0 2 m @ ''-'' @ pad0 2 d" by simp
  have "\<forall>c\<in>set (take 4 s). c \<noteq> CHR ''T''" "\<forall>c\<in>set (take 2 (drop 5 s)). c \<noteq> CHR ''T''"
    "\<forall>c\<in>set (take 2 (drop 8 s)). c \<noteq> CHR ''T''"
    using digitsN_Some(2) [OF py] digitsN_Some(2) [OF pm] digitsN_Some(2) [OF pd] isDigit_not_T
    by (auto simp: list_all_iff)
  then have "CHR ''T'' \<notin> set (take 4 s @ [s ! 4] @ take 2 (drop 5 s) @ [s ! 7] @ take 2 (drop 8 s))"
    using dash by auto
  with parts show "CHR ''T'' \<notin> set s" by simp
qed

lemma parseIsoTime_utc:
  assumes "parseIsoTime r = Some (tod, off)"
  shows "0 \<le> tod" and "tod \<le> msPerDay" and "r \<noteq> []"
proof -
  from assms obtain h mi where ph: "digitsN 2 (take 2 r) = Some h"
    and pmi: "digitsN 2 (take 2 (drop 3 r)) = Some mi"
    and hb: "h \<le> 24" and mb: "mi \<le> 59" and len: "5 \<le> length r"
    by (auto simp: parseIsoTime_def split: option.splits if_splits)
  from len show "r \<noteq> []" by auto
  define r1 where "r1 = drop 5 r"
  define hasSec where "hasSec = startsWith r1 '':''"
  define r2 where "r2 = (if hasSec then drop 3 r1 else r1)"
  define hasMs where "hasMs = (hasSec \<and> startsWith r2 ''.'')"
  define r3 where "r3 = (if hasMs then drop 4 r2 else r2)"
  from assms ph pmi hb mb len obtain se ml
    where ps: "(if hasSec then digitsN 2 (take 2 (drop 1 r1)) else Some 0) = Some se"
      and pml: "(if hasMs then digitsN 3 (take 3 (drop 1 r2)) else Some 0) = Some ml"
      and sb: "se \<le> 59"
      and h24: "h \<le> 23 \<or> (mi = 0 \<and> se = 0 \<and> ml = 0)"
      and tod: "tod = ((h * 60 + mi) * 60 + se) * 1000 + ml"
    unfolding parseIsoTime_def Let_def r1_def [symmetric] hasSec_def [symmetric]
      r2_def [symmetric] hasMs_def [symmetric] r3_def [symmetric]
    by (auto split: option.splits if_splits)
  have h0: "0 \<le> h" and m0: "0 \<le> mi"
    using digitsN_pad(2) [OF ph] digitsN_pad(2) [OF pmi] by simp_all
  have s0: "0 \<le> se"
    using ps digitsN_pad(2) [of 2 "take 2 (drop 1 r1)" se] by (auto split: if_splits)
  have ml0: "0 \<le> ml \<and> ml < 1000"
    using pml digitsN_pad(2,3) [of 3 "take 3 (drop 1 r2)" ml] by (auto split: if_splits)
  from tod h0 m0 s0 ml0 show "0 \<le> tod" by simp
  from h24 show "tod \<le> msPerDay"
  proof
    assume "h \<le> 23"
    with tod mb sb ml0 show ?thesis by (simp add: msPerDay_def)
  next
    assume "mi = 0 \<and> se = 0 \<and> ml = 0"
    with tod hb show ?thesis by (simp add: msPerDay_def)
  qed
qed

lemma utc_text_date:
  assumes pd: "parseIsoDate x = Some (y, m, d)" and dm: "d \<le> daysInMonth y m"
    and tod: "0 \<le> tod" "tod < msPerDay"
  shows "isoDatePart (daysFromCivil y m d * msPerDay + tod) = x"
proof -
  note dtext = parseIsoDate_text [OF pd]
  define t where "t = daysFromCivil y m d * msPerDay + tod"
  have day: "t div msPerDay = daysFromCivil y m d"
    by (rule div_eqI) (use t_def tod in \<open>simp_all add: msPerDay_def\<close>)
  have civil: "civilFromDays (t div msPerDay) = (y, m, d)"
    unfolding day by (rule civil_roundtrip) (use dtext dm in simp_all)
  have "\<exists>rest. toISOString t = x @ CHR ''T'' # rest"
    unfolding toISOString_def Let_def civil using dtext(1) by simp
  then obtain rest where iso: "toISOString t = x @ CHR ''T'' # rest" by blast
  have "takeWhile (\<lambda>c. c \<noteq> CHR ''T'') (x @ CHR ''T'' # rest)
      = x @ takeWhile (\<lambda>c. c \<noteq> CHR ''T'') (CHR ''T'' # rest)"
    by (rule takeWhile_append2) (use dtext(6) in auto)
  then have "isoDatePart t = x"
    unfolding isoDatePart_def iso by simp
  then show ?thesis unfolding t_def .
qed

lemma parseIsoDateTime_date:
  assumes "parseIsoDate s = Some (y, m, d)"
  shows "parseIsoDateTime s = Some (daysFromCivil y m d * msPerDay)"
proof -
  from assms have "length s = 10"
    by (auto simp: parseIsoDate_def split: option.splits if_splits)
  with assms show ?thesis by (simp add: parseIsoDateTime_def)
qed

lemma parseIsoDateTime_time:
  assumes "parseIsoDate (take 10 s) = Some (y, m, d)" and "s ! 10 = CHR ''T''"
    and "parseIsoTime (drop 11 s) = Some (tod, off)"
  shows "parseIsoDateTime s = Some (daysFromCivil y m d * msPerDay + tod - off * 60000)"
proof -
  from parseIsoTime_utc(3) [OF assms(3)] have "length s \<noteq> 10" by auto
  with assms show ?thesis by (simp add: parseIsoDateTime_def)
qed

lemma digitVal_digitChar: "d < 10 \<Longrightarrow> digitVal (digitChar d) = int d \<and> isDigit (digitChar d)"
proof -
  assume "d < 10"
  then have "d \<in> {0, 1, 2, 3, 4, 5, 6, 7, 8, 9}" by auto
  then show ?thesis
    by (auto simp: digitVal_def digitChar_def isDigit_def)
qed

lemma natDigits_value:
  "foldl (\<lambda>a c. a * 10 + digitVal c) 0 (natDigits k) = int k \<and> list_all isDigit (natDigits k)"
proof (induction k rule: natDigits.induct)
  case (1 n)
  show ?case
  proof (cases "n < 10")
    case True
    then show ?thesis
      using digitVal_digitChar [of n] by (subst (1 2) natDigits.simps) simp
  next
    case False
    have "n mod 10 < 10" by simp
    with 1 False digitVal_digitChar [of "n mod 10"] show ?thesis
      by (subst (1 2) natDigits.simps) (simp add: zmod_int zdiv_int)
  qed
qed

lemma natDigits_length: "k < 10 ^ w \<Longrightarrow> 0 < w \<Longrightarrow> length (natDigits k) \<le> w"
proof (induction w arbitrary: k)
  case 0
  then show ?case by simp
next
  case (Suc w)
  show ?case
  proof (cases "k < 10")
    case True
    then show ?thesis by (subst natDigits.simps) simp
  next
    case False
    with Suc.prems have w: "0 < w" by (cases w) auto
    from Suc.prems have "k div 10 < 10 ^ w" by (simp add: less_mult_imp_div_less mult.commute)
    from Suc.IH [OF this w] False show ?thesis
      by (subst natDigits.simps) simp
  qed
qed

lemma zeros_value: "foldl (\<lambda>a c. a * 10 + digitVal c) 0 (replicate j (CHR ''0'')) = 0"
  by (induction j) (simp_all add: digitVal_def)

lemma digitsN_pad0:
  assumes "0 \<le> n" "n < 10 ^ w" "0 < w"
  shows "digitsN w (pad0 w n) = Some n" and "length (pad0 w n) = w"
proof -
  from assms have "nat n < 10 ^ w"
    by (metis nat_less_iff of_nat_numeral of_nat_power)
  from natDigits_length [OF this assms(3)] have len: "length (natDigits (nat n)) \<le> w" .
  then show l: "length (pad0 w n) = w" by (simp add: pad0_def Let_def)
  have "isDigit (CHR ''0'')" by (simp add: isDigit_def)
  then have d: "list_all isDigit (pad0 w n)"
    using natDigits_value [of "nat n"] by (auto simp: pad0_def Let_def list_all_iff)
  have "foldl (\<lambda>a c. a * 10 + digitVal c) 0 (pad0 w n) = n"
    using natDigits_value [of "nat n"] assms(1) zeros_value
    by (simp add: pad0_def Let_def)
  with l d show "digitsN w (pad0 w n) = Some n" by (simp add: digitsN_def)
qed


lemma parseIsoDate_accepts:
  assumes "0 \<le> y" "y \<le> 9999" "1 \<le> m" "m \<le> 12" "1 \<le> d" "d \<le> 31"
  shows "parseIsoDate (pad0 4 y @ ''-'' @ pad0 2 m @ ''-'' @ pad0 2 d) = Some (y, m, d)"
proof -
  note py = digitsN_pad0 [of y 4] and pm = digitsN_pad0 [of m 2] and pd = digitsN_pad0 [of d 2]
  from assms py pm pd show ?thesis
    by (simp add: parseIsoDate_def nth_append)
qed

lemma parseIsoTime_accepts:
  assumes "0 \<le> h" "h \<le> 23" "0 \<le> mi" "mi \<le> 59" "0 \<le> se" "se \<le> 59" "0 \<le> ml" "ml \<le> 999"
    and "zone \<in> {''Z'', ''+00:00'', ''-00:00''}"
  shows "parseIsoTime (pad0 2 h @ '':'' @ pad0 2 mi @ zone) = Some ((h * 60 + mi) * 60000, 0)"
    and "parseIsoTime (pad0 2 h @ '':'' @ pad0 2 mi @ '':'' @ pad0 2 se @ zone)
          = Some (((h * 60 + mi) * 60 + se) * 1000, 0)"
    and "parseIsoTime (pad0 2 h @ '':'' @ pad0 2 mi @ '':'' @ pad0 2 se @ ''.'' @ pad0 3 ml @ zone)
          = Some (((h * 60 + mi) * 60 + se) * 1000 + ml, 0)"
proof -
  note ph = digitsN_pad0 [of h 2] and pm = digitsN_pad0 [of mi 2] and ps = digitsN_pad0 [of se 2]
    and pl = digitsN_pad0 [of ml 3]
  have z: "parseIsoZone zone = Some 0" "\<not> startsWith zone '':''" "\<not> startsWith zone ''.''"
    using assms(9) by (auto simp: parseIsoZone_def digitsN_def isDigit_def digitVal_def)
  from assms ph pm z show "parseIsoTime (pad0 2 h @ '':'' @ pad0 2 mi @ zone) = Some ((h * 60 + mi) * 60000, 0)"
    by (simp add: parseIsoTime_def nth_append Let_def)
  from assms ph pm ps z show "parseIsoTime (pad0 2 h @ '':'' @ pad0 2 mi @ '':'' @ pad0 2 se @ zone)
          = Some (((h * 60 + mi) * 60 + se) * 1000, 0)"
    by (simp add: parseIsoTime_def nth_append Let_def)
  from assms ph pm ps pl z show "parseIsoTime (pad0 2 h @ '':'' @ pad0 2 mi @ '':'' @ pad0 2 se @ ''.'' @ pad0 3 ml @ zone)
          = Some (((h * 60 + mi) * 60 + se) * 1000 + ml, 0)"
    by (simp add: parseIsoTime_def nth_append Let_def)
qed


lemma tod_before_midnight:
  fixes h mi se ml :: int
  assumes "0 \<le> h" "h \<le> 23" "0 \<le> mi" "mi \<le> 59" "0 \<le> se" "se \<le> 59" "0 \<le> ml" "ml \<le> 999"
  shows "0 \<le> ((h * 60 + mi) * 60 + se) * 1000 + ml"
    and "((h * 60 + mi) * 60 + se) * 1000 + ml < msPerDay"
  using assms by (simp_all add: msPerDay_def)

lemma utc_text_newDate:
  assumes pd: "parseIsoDate date = Some (y, m, d)" and dm: "d \<le> daysInMonth y m"
    and pt: "parseIsoTime r = Some (tod, 0)" and tod: "tod < msPerDay"
  shows "newDate hostParse (JStr (date @ ''T'' @ r)) = Some (daysFromCivil y m d * msPerDay + tod)"
    and "isoDatePart (daysFromCivil y m d * msPerDay + tod) = date"
    and "take 10 (date @ ''T'' @ r) = date"
proof -
  from pd have len: "length date = 10"
    by (auto simp: parseIsoDate_def split: option.splits if_splits)
  then show t10: "take 10 (date @ ''T'' @ r) = date" by simp
  from len have "(date @ ''T'' @ r) ! 10 = CHR ''T''" "drop 11 (date @ ''T'' @ r) = r"
    by (simp_all add: nth_append)
  with pd pt t10 parseIsoDateTime_time [of "date @ ''T'' @ r" y m d tod 0]
  show "newDate hostParse (JStr (date @ ''T'' @ r)) = Some (daysFromCivil y m d * msPerDay + tod)"
    by (simp add: Date_parse_def)
  from parseIsoTime_utc(1) [OF pt] have "0 \<le> tod" .
  from utc_text_date [OF pd dm this tod]
  show "isoDatePart (daysFromCivil y m d * msPerDay + tod) = date" .
qed

lemma daysInMonth_max: "daysInMonth y m \<le> 31"
  by (simp add: daysInMonth_def)

lemma utc_text_partition:
  assumes "0 \<le> y" "y \<le> 9999" "1 \<le> m" "m \<le> 12" "1 \<le> d" "d \<le> daysInMonth y m"
    and "0 \<le> h" "h \<le> 23" "0 \<le> mi" "mi \<le> 59" "0 \<le> se" "se \<le> 59" "0 \<le> ml" "ml \<le> 999"
    and "zone \<in> {''Z'', ''+00:00'', ''-00:00''}"
    and "date = pad0 4 y @ ''-'' @ pad0 2 m @ ''-'' @ pad0 2 d"
    and "s \<in> {date,
           date @ ''T'' @ pad0 2 h @ '':'' @ pad0 2 mi @ zone,
           date @ ''T'' @ pad0 2 h @ '':'' @ pad0 2 mi @ '':'' @ pad0 2 se @ zone,
           date @ ''T'' @ pad0 2 h @ '':'' @ pad0 2 mi @ '':'' @ pad0 2 se @ ''.'' @ pad0 3 ml @ zone}"
  shows "\<exists>t. newDate hostParse (JStr s) = Some t \<and> isoDatePart t = date \<and> take 10 s = date"
proof -
  from assms(6) daysInMonth_max [of y m] have "d \<le> 31" by linarith
  from parseIsoDate_accepts [OF assms(1-5) this] assms(16)
  have pd: "parseIsoDate date = Some (y, m, d)" by simp
  note dm = assms(6)
  note acc = parseIsoTime_accepts [OF assms(7-15)]
  note tod = tod_before_midnight [OF assms(7-14)]
  have tod1: "(h * 60 + mi) * 60000 < msPerDay"
    using assms(7-10) by (simp add: msPerDay_def)
  have tod2: "((h * 60 + mi) * 60 + se) * 1000 < msPerDay"
    using assms(7-12) by (simp add: msPerDay_def)
  consider "s = date"
    | "s = date @ ''T'' @ pad0 2 h @ '':'' @ pad0 2 mi @ zone"
    | "s = date @ ''T'' @ pad0 2 h @ '':'' @ pad0 2 mi @ '':'' @ pad0 2 se @ zone"
    | "s = date @ ''T'' @ pad0 2 h @ '':'' @ pad0 2 mi @ '':'' @ pad0 2 se @ ''.'' @ pad0 3 ml @ zone"
    using assms(17) by blast
  then show ?thesis
  proof cases
    case 1
    from pd have len: "length date = 10"
      by (auto simp: parseIsoDate_def split: option.splits if_splits)
    have "newDate hostParse (JStr date) = Some (daysFromCivil y m d * msPerDay)"
      using parseIsoDateTime_date [OF pd] by (simp add: Date_parse_def)
    moreover have "isoDatePart (daysFromCivil y m d * msPerDay) = date"
      using utc_text_date [OF pd dm, of 0] by (simp add: msPerDay_def)
    ultimately show ?thesis using 1 len by simp
  next
    case 2
    from utc_text_newDate [OF pd dm acc(1) tod1] show ?thesis unfolding 2 by blast
  next
    case 3
    from utc_text_newDate [OF pd dm acc(2) tod2] show ?thesis unfolding 3 by simp
  next
    case 4
    from utc_text_newDate [OF pd dm acc(3) tod(2)] show ?thesis unfolding 4 by simp
  qed
qed

lemma importRow_new_entities:
  assumes "rowStartDate hostParse (rowRecord headers row) = Some t"
    and "e \<in> set (fst (importRow hostParse genId headers i row (tbl, results)))"
    and "e \<notin> set tbl"
  shows "e = rowEntity (isoDatePart t) (rowSessionId genId (rowRecord headers row)) (rowRecord headers row)"
  using assms
  by (auto simp: importRow_def importRecord_def Let_def createEntity_def updateEntity_def deleteEntity_def
      split: option.splits sum.splits if_splits)

lemma addScheduleItem_first:
  assumes "newDate hostParse (JStr s) = Some t"
  shows "snd (addScheduleItem hostParse sessionId (body(''startTime'' \<mapsto> JStr s)) [])
    = [newEntity (isoDatePart t) sessionId (body(''startTime'' \<mapsto> JStr s))]"
  using assms
  by (simp add: addScheduleItem_def getProp_def createEntity_def)

text \<open>
  C7, as the code has it. The partition key is the date part of the UTC rendering
  (\<open>toISOString\<close>) of the instant the start time denotes: a created session is stored
  under it, and so is every entity an imported row writes. That date is the first ten
  characters of the start time when the start time is \<open>YYYY-MM-DD\<close> alone, or
  \<open>YYYY-MM-DD\<close>, \<open>T\<close>, a time \<open>HH:mm\<close>, \<open>HH:mm:ss\<close> or \<open>HH:mm:ss.sss\<close> and a zero offset
  written \<open>Z\<close>, \<open>+00:00\<close> or \<open>-00:00\<close>, with a year from 0000 to 9999, a month from 01 to
  12, a day that month has in that year, an hour from 00 to 23, and minutes and seconds
  from 00 to 59; creating a session with the start time \<open>2026-03-15T14:00:00Z\<close> stores it
  under \<open>2026-03-15\<close>. The bounds on the day and the hour are needed: a first session
  with the start time \<open>2026-02-30\<close> is stored under \<open>2026-03-02\<close>, and one with
  \<open>2026-03-15T24:00:00Z\<close> under \<open>2026-03-16\<close>.
\<close>

theorem partition_key_is_utc_date:
  "(status (fst (addScheduleItem hostParse sessionId body tbl)) = 201 \<longrightarrow>
      (\<exists>t. newDate hostParse (getProp body ''startTime'') = Some t
          \<and> snd (addScheduleItem hostParse sessionId body tbl)
              = tbl @ [newEntity (isoDatePart t) sessionId body]
          \<and> partitionKey (newEntity (isoDatePart t) sessionId body) = isoDatePart t))
   \<and> (rowStartDate hostParse (rowRecord headers row) = Some t' \<longrightarrow>
        (\<forall>e\<in>set (fst (importRow hostParse genId headers i row (tbl, results))).
            e \<notin> set tbl \<longrightarrow> partitionKey e = isoDatePart t'))
   \<and> (0 \<le> y \<and> y \<le> 9999 \<and> 1 \<le> m \<and> m \<le> 12 \<and> 1 \<le> d \<and> d \<le> daysInMonth y m
        \<and> 0 \<le> h \<and> h \<le> 23 \<and> 0 \<le> mi \<and> mi \<le> 59 \<and> 0 \<le> se \<and> se \<le> 59 \<and> 0 \<le> ml \<and> ml \<le> 999
        \<and> zone \<in> {''Z'', ''+00:00'', ''-00:00''}
        \<and> date = pad0 4 y @ ''-'' @ pad0 2 m @ ''-'' @ pad0 2 d
        \<and> s \<in> {date,
               date @ ''T'' @ pad0 2 h @ '':'' @ pad0 2 mi @ zone,
               date @ ''T'' @ pad0 2 h @ '':'' @ pad0 2 mi @ '':'' @ pad0 2 se @ zone,
               date @ ''T'' @ pad0 2 h @ '':'' @ pad0 2 mi @ '':'' @ pad0 2 se @ ''.'' @ pad0 3 ml
                 @ zone} \<longrightarrow>
        (\<exists>t. newDate hostParse (JStr s) = Some t \<and> isoDatePart t = date \<and> take 10 s = date))
   \<and> (body ''startTime'' = Some (JStr ''2026-03-15T14:00:00Z'')
        \<and> \<not> list_ex (hasKey ''2026-03-15'' sessionId) tbl \<longrightarrow>
        addScheduleItem hostParse sessionId body tbl
          = (\<lparr>status = 201, jsonBody = CreatedBody ''Schedule item created'' sessionId sessionId\<rparr>,
             tbl @ [newEntity ''2026-03-15'' sessionId body]))
   \<and> map partitionKey
        (snd (addScheduleItem hostParse sessionId (body(''startTime'' \<mapsto> JStr ''2026-02-30'')) []))
      = [''2026-03-02'']
   \<and> map partitionKey
        (snd (addScheduleItem hostParse sessionId
           (body(''startTime'' \<mapsto> JStr ''2026-03-15T24:00:00Z'')) []))
      = [''2026-03-16'']"
proof (intro conjI impI)
  assume "status (fst (addScheduleItem hostParse sessionId body tbl)) = 201"
  then show "\<exists>t. newDate hostParse (getProp body ''startTime'') = Some t
          \<and> snd (addScheduleItem hostParse sessionId body tbl)
              = tbl @ [newEntity (isoDatePart t) sessionId body]
          \<and> partitionKey (newEntity (isoDatePart t) sessionId body) = isoDatePart t"
    by (auto simp: addScheduleItem_def createEntity_def newEntity_def
        split: option.splits sum.splits if_splits)
next
  assume valid: "rowStartDate hostParse (rowRecord headers row) = Some t'"
  show "\<forall>e\<in>set (fst (importRow hostParse genId headers i row (tbl, results))).
            e \<notin> set tbl \<longrightarrow> partitionKey e = isoDatePart t'"
  proof (intro ballI impI)
    fix e
    assume "e \<in> set (fst (importRow hostParse genId headers i row (tbl, results)))"
      and "e \<notin> set tbl"
    then have "e = rowEntity (isoDatePart t') (rowSessionId genId (rowRecord headers row))
        (rowRecord headers row)"
      by (rule importRow_new_entities [OF valid])
    then show "partitionKey e = isoDatePart t'" by (simp add: rowEntity_def)
  qed
next
  assume "0 \<le> y \<and> y \<le> 9999 \<and> 1 \<le> m \<and> m \<le> 12 \<and> 1 \<le> d \<and> d \<le> daysInMonth y m
        \<and> 0 \<le> h \<and> h \<le> 23 \<and> 0 \<le> mi \<and> mi \<le> 59 \<and> 0 \<le> se \<and> se \<le> 59 \<and> 0 \<le> ml \<and> ml \<le> 999
        \<and> zone \<in> {''Z'', ''+00:00'', ''-00:00''}
        \<and> date = pad0 4 y @ ''-'' @ pad0 2 m @ ''-'' @ pad0 2 d
        \<and> s \<in> {date,
               date @ ''T'' @ pad0 2 h @ '':'' @ pad0 2 mi @ zone,
               date @ ''T'' @ pad0 2 h @ '':'' @ pad0 2 mi @ '':'' @ pad0 2 se @ zone,
               date @ ''T'' @ pad0 2 h @ '':'' @ pad0 2 mi @ '':'' @ pad0 2 se @ ''.'' @ pad0 3 ml
                 @ zone}"
  then show "\<exists>t. newDate hostParse (JStr s) = Some t \<and> isoDatePart t = date \<and> take 10 s = date"
    by (elim conjE)
      (rule utc_text_partition [where y = y and m = m and d = d and h = h and mi = mi
          and se = se and ml = ml and zone = zone and date = date and s = s]; assumption)
next
  assume a: "body ''startTime'' = Some (JStr ''2026-03-15T14:00:00Z'')
        \<and> \<not> list_ex (hasKey ''2026-03-15'' sessionId) tbl"
  have p: "parseIsoDateTime ''2026-03-15T14:00:00Z'' = Some 1773583200000"
    by code_simp
  have d: "isoDatePart 1773583200000 = ''2026-03-15''"
    by code_simp
  from a p d show "addScheduleItem hostParse sessionId body tbl
          = (\<lparr>status = 201, jsonBody = CreatedBody ''Schedule item created'' sessionId sessionId\<rparr>,
             tbl @ [newEntity ''2026-03-15'' sessionId body])"
    by (simp add: addScheduleItem_def getProp_def Date_parse_def createEntity_def newEntity_def)
next
  have p: "parseIsoDateTime ''2026-02-30'' = Some 1772409600000"
    by code_simp
  have d: "isoDatePart 1772409600000 = ''2026-03-02''"
    by code_simp
  from p have "newDate hostParse (JStr ''2026-02-30'') = Some 1772409600000"
    by (simp add: Date_parse_def)
  from addScheduleItem_first [OF this] d
  show "map partitionKey
        (snd (addScheduleItem hostParse sessionId (body(''startTime'' \<mapsto> JStr ''2026-02-30'')) []))
      = [''2026-03-02'']"
    by (simp add: newEntity_def)
next
  have p: "parseIsoDateTime ''2026-03-15T24:00:00Z'' = Some 1773619200000"
    by code_simp
  have d: "isoDatePart 1773619200000 = ''2026-03-16''"
    by code_simp
  from p have "newDate hostParse (JStr ''2026-03-15T24:00:00Z'') = Some 1773619200000"
    by (simp add: Date_parse_def)
  from addScheduleItem_first [OF this] d
  show "map partitionKey
        (snd (addScheduleItem hostParse sessionId
           (body(''startTime'' \<mapsto> JStr ''2026-03-15T24:00:00Z'')) []))
      = [''2026-03-16'']"
    by (simp add: newEntity_def)
qed

theorem partition_key_is_utc_date_witness:
  "addScheduleItem (\<lambda>s. None) ''sess_1''
     [''videoId'' \<mapsto> JStr ''abc'', ''title'' \<mapsto> JStr ''Talk'',
      ''startTime'' \<mapsto> JStr ''2026-03-15T14:00:00Z''] []
   = (\<lparr>status = 201, jsonBody = CreatedBody ''Schedule item created'' ''sess_1'' ''sess_1''\<rparr>,
      [\<lparr>partitionKey = ''2026-03-15'', rowKey = ''sess_1'', videoId = JStr ''abc'',
        title = JStr ''Talk'', description = JStr [],
        url = JStr ''https://www.youtube.com/watch?v=abc'',
        startTime = JStr ''2026-03-15T14:00:00Z'', duration = JNum 0\<rparr>])
   \<and> (\<exists>t. newDate (\<lambda>s. None) (JStr ''2026-03-15T14:00:00Z'') = Some t
          \<and> isoDatePart t = ''2026-03-15'')"
proof -
  let ?body = "[''videoId'' \<mapsto> JStr ''abc'', ''title'' \<mapsto> JStr ''Talk'',
      ''startTime'' \<mapsto> JStr ''2026-03-15T14:00:00Z'']"
  have pads: "pad0 4 2026 @ ''-'' @ pad0 2 3 @ ''-'' @ pad0 2 15 = ''2026-03-15''"
    "''2026-03-15'' @ ''T'' @ pad0 2 14 @ '':'' @ pad0 2 0 @ '':'' @ pad0 2 0 @ ''Z''
      = ''2026-03-15T14:00:00Z''"
    by code_simp+
  have dm: "(15 :: int) \<le> daysInMonth 2026 3"
    by code_simp
  have p: "0 \<le> (2026 :: int) \<and> (2026 :: int) \<le> 9999 \<and> 1 \<le> (3 :: int) \<and> (3 :: int) \<le> 12
      \<and> 1 \<le> (15 :: int) \<and> (15 :: int) \<le> daysInMonth 2026 3
      \<and> 0 \<le> (14 :: int) \<and> (14 :: int) \<le> 23 \<and> 0 \<le> (0 :: int) \<and> (0 :: int) \<le> 59
      \<and> 0 \<le> (0 :: int) \<and> (0 :: int) \<le> 59 \<and> 0 \<le> (0 :: int) \<and> (0 :: int) \<le> 999
      \<and> ''Z'' \<in> {''Z'', ''+00:00'', ''-00:00''}
      \<and> ''2026-03-15'' = pad0 4 2026 @ ''-'' @ pad0 2 3 @ ''-'' @ pad0 2 15
      \<and> ''2026-03-15T14:00:00Z'' \<in> {''2026-03-15'',
             ''2026-03-15'' @ ''T'' @ pad0 2 14 @ '':'' @ pad0 2 0 @ ''Z'',
             ''2026-03-15'' @ ''T'' @ pad0 2 14 @ '':'' @ pad0 2 0 @ '':'' @ pad0 2 0 @ ''Z'',
             ''2026-03-15'' @ ''T'' @ pad0 2 14 @ '':'' @ pad0 2 0 @ '':'' @ pad0 2 0 @ ''.'' @ pad0 3 0
               @ ''Z''}"
    using pads dm by simp
  have k: "?body ''startTime'' = Some (JStr ''2026-03-15T14:00:00Z'')
      \<and> \<not> list_ex (hasKey ''2026-03-15'' ''sess_1'') []"
    by simp
  have e: "newEntity ''2026-03-15'' ''sess_1'' ?body
      = \<lparr>partitionKey = ''2026-03-15'', rowKey = ''sess_1'', videoId = JStr ''abc'',
        title = JStr ''Talk'', description = JStr [],
        url = JStr ''https://www.youtube.com/watch?v=abc'',
        startTime = JStr ''2026-03-15T14:00:00Z'', duration = JNum 0\<rparr>"
    by (simp add: newEntity_def getProp_def orElse_def watchUrl_def)
  note inst = partition_key_is_utc_date
    [where s = "''2026-03-15T14:00:00Z''" and date = "''2026-03-15''" and zone = "''Z''"
      and y = 2026 and m = 3 and d = 15 and h = 14 and mi = 0 and se = 0 and ml = 0
      and body = ?body and sessionId = "''sess_1''" and tbl = "[]" and hostParse = "\<lambda>s. None"]
  from inst k
  have "addScheduleItem (\<lambda>s. None) ''sess_1'' ?body []
          = (\<lparr>status = 201, jsonBody = CreatedBody ''Schedule item created'' ''sess_1'' ''sess_1''\<rparr>,
             [] @ [newEntity ''2026-03-15'' ''sess_1'' ?body])"
    by blast
  moreover from inst p
  have "\<exists>t. newDate (\<lambda>s. None) (JStr ''2026-03-15T14:00:00Z'') = Some t
      \<and> isoDatePart t = ''2026-03-15'' \<and> take 10 ''2026-03-15T14:00:00Z'' = ''2026-03-15''"
    by blast
  ultimately show ?thesis unfolding e by auto
qed

text \<open>
  C7 as stated fails: a start time written with the offset \<open>-05:00\<close> late on 15 March is
  stored under the partition key of 16 March, the UTC date, while the date part of the
  start time is 15 March.
\<close>

theorem partition_key_offset_counterexample:
  "snd (addScheduleItem (\<lambda>s. None) ''sess_1''
     [''videoId'' \<mapsto> JStr ''abc'', ''title'' \<mapsto> JStr ''Talk'',
      ''startTime'' \<mapsto> JStr ''2026-03-15T23:30:00-05:00''] [])
   = [\<lparr>partitionKey = ''2026-03-16'', rowKey = ''sess_1'', videoId = JStr ''abc'',
        title = JStr ''Talk'', description = JStr [],
        url = JStr ''https://www.youtube.com/watch?v=abc'',
        startTime = JStr ''2026-03-15T23:30:00-05:00'', duration = JNum 0\<rparr>]
   \<and> take 10 ''2026-03-15T23:30:00-05:00'' = ''2026-03-15''"
  by code_simp

end
